theory Spec2Isabelle
  imports Complex_Main
begin

section \<open>Data model (types/index.ts, errors/index.ts)\<close>

text \<open>
  The service (\<open>CartService\<close>) and the provider it delegates to (\<open>SalesforceCartClient\<close>)
  are embedded as functions that take the state and return the thrown error or the
  value, with the state after the call. An \<open>async\<close> method is the sequence of its awaited
  calls: one operation runs at a time. Output to the console is left out.

  Instants (\<open>Date\<close>, \<open>Date.now()\<close>) are integers counting milliseconds. A price is a
  JavaScript number of finite value, given as the rational it denotes; a quantity is an
  integer (the routes admit only positive integers).

  Items are values. In the source the item objects of a context are shared with the carts
  built from it and, after \<open>syncSessionItems\<close>, with \<open>session.items\<close>; the only mutation of
  an item, \<open>item.quantity = quantity\<close> in the provider's \<open>updateItem\<close>, is followed at once by
  \<open>syncSessionItems\<close> with the items of that very context, so the session holds the same
  items under both readings.
\<close>

text \<open>
  The sums and products of JavaScript numbers are rounded (IEEE 754 doubles), so a total is
  in general not the exact sum of the exact products. The model does not compute them: a
  total is the expression that the code evaluates over the numbers it reads, \<open>Add\<close> for \<open>+\<close>
  and \<open>Mul\<close> for \<open>*\<close>. \<open>valueOf lit add mul\<close> is the number that an expression denotes when
  \<open>lit\<close> reads the literals and \<open>add\<close> and \<open>mul\<close> are the two operations: the arithmetic of
  doubles is one such reading, exact arithmetic another. Two totals that are equal as
  expressions are equal under every reading.
\<close>

datatype number = Lit rat | Add number number | Mul number number


record CartContext =
  ctxId :: string
  expiresAt :: int

record CartItemInput =
  productId :: string
  name :: string
  price :: rat
  quantity :: int

text \<open>\<open>CartItem\<close> has the fields of \<open>CartItemInput\<close> and the generated identifier \<open>id\<close>.\<close>

record CartItem = CartItemInput +
  itemId :: string

record Cart =
  cartId :: string
  cartItems :: "CartItem list"
  total :: number

record SessionCart =
  sessionId :: string
  sfContextId :: string
  items :: "CartItem list"
  createdAt :: int
  lastAccessed :: int

text \<open>
  What a call may throw: the four error classes, \<open>OtherError\<close> for any other \<open>Error\<close>
  instance (provider unavailable, ...), and \<open>NonError\<close> for a thrown value that is not an
  \<open>Error\<close> instance (a string, a plain object): JavaScript lets a client throw, or reject
  with, any value. \<open>ContextRecoveryFailedError\<close> carries the session id (in its message) and
  the optional \<open>cause\<close>.
\<close>

datatype exn =
    ContextExpiredError string
  | CartNotFoundError string
  | ItemNotFoundError string
  | ContextRecoveryFailedError string "exn option"
  | OtherError string
  | NonError string

fun instanceofContextExpiredError :: "exn \<Rightarrow> bool" where
  "instanceofContextExpiredError (ContextExpiredError c) = True"
| "instanceofContextExpiredError e = False"

fun instanceofError :: "exn \<Rightarrow> bool" where
  "instanceofError (NonError v) = False"
| "instanceofError e = True"

subsection \<open>Generated identifiers\<close>

definition digit :: "nat \<Rightarrow> char" where
  "digit d = ''0123456789'' ! d"

fun showNat :: "nat \<Rightarrow> string" where
  "showNat n = (if n < 10 then [digit n] else showNat (n div 10) @ [digit (n mod 10)])"

declare showNat.simps [simp del]

text \<open>
  \<open>randomUUID()\<close> is modelled as a collision-free supply of names: the call number \<open>k\<close>
  returns the decimal numeral of \<open>k\<close>. The service and the client draw from supplies of
  their own; their identifiers carry different prefixes.
\<close>

definition randomUUID :: "nat \<Rightarrow> string" where
  "randomUUID k = showNat k"

subsection \<open>Array helpers\<close>

fun findIndex :: "('a \<Rightarrow> bool) \<Rightarrow> 'a list \<Rightarrow> nat option" where
  "findIndex P [] = None"
| "findIndex P (x # xs) = (if P x then Some 0 else map_option Suc (findIndex P xs))"

definition splice1 :: "nat \<Rightarrow> 'a list \<Rightarrow> 'a list" where
  "splice1 i xs = take i xs @ drop (Suc i) xs"

section \<open>The provider interface (ISalesforceCartClient)\<close>

text \<open>
  A client is a record of five operations over a provider state \<open>'p\<close>. Each returns the
  thrown error (\<open>Inl\<close>) or the value (\<open>Inr\<close>), and the provider state after the call.
  The fields carry the names of the interface; the methods of the test double are
  \<open>sf_createContext\<close>, \<open>sf_addItem\<close>, ..., those of the service \<open>cs_createCart\<close>,
  \<open>cs_getCart\<close>, ...
\<close>

record 'p ISalesforceCartClient =
  createContext :: "'p \<Rightarrow> (exn + CartContext) \<times> 'p"
  addItem :: "string \<Rightarrow> CartItemInput \<Rightarrow> 'p \<Rightarrow> (exn + Cart) \<times> 'p"
  getCart :: "string \<Rightarrow> 'p \<Rightarrow> (exn + Cart) \<times> 'p"
  removeItem :: "string \<Rightarrow> string \<Rightarrow> 'p \<Rightarrow> (exn + Cart) \<times> 'p"
  updateItem :: "string \<Rightarrow> string \<Rightarrow> int \<Rightarrow> 'p \<Rightarrow> (exn + Cart) \<times> 'p"

section \<open>SalesforceCartClient (clients/salesforce-cart-client.ts)\<close>

record ContextData =
  cdContext :: CartContext
  ctxItems :: "CartItem list"

text \<open>
  The state of the test double: the context table, the item counter, its supply of UUIDs,
  and the clock that \<open>Date.now()\<close> reads. The clock moves between calls only.
\<close>

record sf_state =
  contexts :: "string \<rightharpoonup> ContextData"
  itemCounter :: nat
  uuidSupply :: nat
  clock :: int

definition CONTEXT_EXPIRY_MS :: int where
  "CONTEXT_EXPIRY_MS = 30 * 60 * 1000"

definition sf_createContext :: "sf_state \<Rightarrow> (exn + CartContext) \<times> sf_state" where
  "sf_createContext sf =
     (let cx = \<lparr>ctxId = ''ctx_'' @ randomUUID (uuidSupply sf),
                expiresAt = clock sf + CONTEXT_EXPIRY_MS\<rparr>
      in (Inr cx,
          sf\<lparr>contexts := (contexts sf)(ctxId cx \<mapsto> \<lparr>cdContext = cx, ctxItems = []\<rparr>),
             uuidSupply := Suc (uuidSupply sf)\<rparr>))"

definition getValidContext :: "sf_state \<Rightarrow> string \<Rightarrow> exn + ContextData" where
  "getValidContext sf contextId =
     (case contexts sf contextId of
        None \<Rightarrow> Inl (ContextExpiredError contextId)
      | Some contextData \<Rightarrow>
          if clock sf > expiresAt (cdContext contextData)
          then Inl (ContextExpiredError contextId)
          else Inr contextData)"

text \<open>
  The \<open>reduce\<close> of \<open>buildCart\<close>: from \<open>0\<close>, in the order of the items,
  \<open>sum + item.price * item.quantity\<close>.
\<close>

definition itemsTotal :: "CartItem list \<Rightarrow> number" where
  "itemsTotal xs =
     foldl (\<lambda>sum item. Add sum (Mul (Lit (price item)) (Lit (of_int (quantity item))))) (Lit 0) xs"

definition buildCart :: "ContextData \<Rightarrow> Cart" where
  "buildCart contextData =
     \<lparr>cartId = ''cart_'' @ ctxId (cdContext contextData),
      cartItems = ctxItems contextData,
      total = itemsTotal (ctxItems contextData)\<rparr>"

definition sf_addItem :: "string \<Rightarrow> CartItemInput \<Rightarrow> sf_state \<Rightarrow> (exn + Cart) \<times> sf_state" where
  "sf_addItem contextId item sf =
     (case getValidContext sf contextId of
        Inl e \<Rightarrow> (Inl e, sf)
      | Inr contextData \<Rightarrow>
          let n = Suc (itemCounter sf);
              cartItem = \<lparr>productId = productId item, name = name item,
                          price = price item, quantity = quantity item,
                          itemId = ''item_'' @ showNat n\<rparr>;
              contextData' = contextData\<lparr>ctxItems := ctxItems contextData @ [cartItem]\<rparr>
          in (Inr (buildCart contextData'),
              sf\<lparr>contexts := (contexts sf)(contextId \<mapsto> contextData'), itemCounter := n\<rparr>))"

definition sf_getCart :: "string \<Rightarrow> sf_state \<Rightarrow> (exn + Cart) \<times> sf_state" where
  "sf_getCart contextId sf =
     (case getValidContext sf contextId of
        Inl e \<Rightarrow> (Inl e, sf)
      | Inr contextData \<Rightarrow> (Inr (buildCart contextData), sf))"

definition sf_removeItem :: "string \<Rightarrow> string \<Rightarrow> sf_state \<Rightarrow> (exn + Cart) \<times> sf_state" where
  "sf_removeItem contextId iid sf =
     (case getValidContext sf contextId of
        Inl e \<Rightarrow> (Inl e, sf)
      | Inr contextData \<Rightarrow>
          (case findIndex (\<lambda>item. itemId item = iid) (ctxItems contextData) of
             None \<Rightarrow> (Inl (ItemNotFoundError iid), sf)
           | Some itemIndex \<Rightarrow>
               let contextData' =
                     contextData\<lparr>ctxItems := splice1 itemIndex (ctxItems contextData)\<rparr>
               in (Inr (buildCart contextData'),
                   sf\<lparr>contexts := (contexts sf)(contextId \<mapsto> contextData')\<rparr>)))"

text \<open>
  \<open>updateItem\<close> finds the first item with the id and sets its quantity in place: the list
  with the item at the index of the first match replaced.
\<close>

definition sf_updateItem ::
  "string \<Rightarrow> string \<Rightarrow> int \<Rightarrow> sf_state \<Rightarrow> (exn + Cart) \<times> sf_state" where
  "sf_updateItem contextId iid q sf =
     (case getValidContext sf contextId of
        Inl e \<Rightarrow> (Inl e, sf)
      | Inr contextData \<Rightarrow>
          (case findIndex (\<lambda>item. itemId item = iid) (ctxItems contextData) of
             None \<Rightarrow> (Inl (ItemNotFoundError iid), sf)
           | Some i \<Rightarrow>
               let contextData' =
                     contextData\<lparr>ctxItems :=
                       (ctxItems contextData)[i := (ctxItems contextData ! i)\<lparr>quantity := q\<rparr>]\<rparr>
               in (Inr (buildCart contextData'),
                   sf\<lparr>contexts := (contexts sf)(contextId \<mapsto> contextData')\<rparr>)))"

text \<open>The test helper \<open>expireContext\<close>: the expiry instant moves one second into the past.\<close>

definition expireContext :: "string \<Rightarrow> sf_state \<Rightarrow> sf_state" where
  "expireContext contextId sf =
     (case contexts sf contextId of
        None \<Rightarrow> sf
      | Some contextData \<Rightarrow>
          sf\<lparr>contexts := (contexts sf)(contextId \<mapsto>
               contextData\<lparr>cdContext := (cdContext contextData)\<lparr>expiresAt := clock sf - 1000\<rparr>\<rparr>)\<rparr>)"

definition SalesforceCartClient :: "sf_state ISalesforceCartClient" where
  "SalesforceCartClient =
     \<lparr>createContext = sf_createContext, addItem = sf_addItem, getCart = sf_getCart,
      removeItem = sf_removeItem, updateItem = sf_updateItem\<rparr>"

definition sf_init :: "int \<Rightarrow> sf_state" where
  "sf_init t = \<lparr>contexts = Map.empty, itemCounter = 0, uuidSupply = 0, clock = t\<rparr>"

section \<open>CartService (services/cart-service.ts)\<close>

text \<open>
  The state of the service: the session table, and its supply of UUIDs. A session object
  is mutated in place in the source; the model writes the changed session back under the
  key it was found at (\<open>putSession\<close>). Every method takes the client \<open>c\<close> the service was
  constructed with and the instant \<open>t\<close> that \<open>new Date()\<close> gives during the call.
\<close>

record cs_state =
  sessions :: "string \<rightharpoonup> SessionCart"
  sessionSupply :: nat

definition cs_init :: cs_state where
  "cs_init = \<lparr>sessions = Map.empty, sessionSupply = 0\<rparr>"

definition putSession :: "string \<Rightarrow> SessionCart \<Rightarrow> cs_state \<Rightarrow> cs_state" where
  "putSession sid session svc = svc\<lparr>sessions := (sessions svc)(sid \<mapsto> session)\<rparr>"

definition getSession :: "cs_state \<Rightarrow> string \<Rightarrow> exn + SessionCart" where
  "getSession svc sid =
     (case sessions svc sid of
        None \<Rightarrow> Inl (CartNotFoundError sid)
      | Some session \<Rightarrow> Inr session)"

definition syncSessionItems :: "SessionCart \<Rightarrow> CartItem list \<Rightarrow> SessionCart" where
  "syncSessionItems session its = session\<lparr>items := its\<rparr>"

definition inputOf :: "CartItem \<Rightarrow> CartItemInput" where
  "inputOf item =
     \<lparr>productId = productId item, name = name item,
      price = price item, quantity = quantity item\<rparr>"

text \<open>Step 2 of the recovery: the loop over \<open>session.items\<close>; the first throw ends it.\<close>

fun replay ::
  "'p ISalesforceCartClient \<Rightarrow> string \<Rightarrow> CartItem list \<Rightarrow> 'p \<Rightarrow> (exn + unit) \<times> 'p" where
  "replay c newId [] p = (Inr (), p)"
| "replay c newId (item # rest) p =
     (case addItem c newId (inputOf item) p of
        (Inl e, p') \<Rightarrow> (Inl e, p')
      | (Inr cart, p') \<Rightarrow> replay c newId rest p')"

text \<open>
  \<open>recoverContext\<close> returns the thrown error or nothing, the session as the call leaves
  it, and the provider state. Its \<open>catch\<close> block passes the caught value on as the cause
  only if it is an \<open>Error\<close> instance: \<open>error instanceof Error ? error : undefined\<close>.
\<close>

definition recoverContext ::
  "'p ISalesforceCartClient \<Rightarrow> SessionCart \<Rightarrow> 'p \<Rightarrow> (exn + unit) \<times> SessionCart \<times> 'p" where
  "recoverContext c session p =
     (case createContext c p of
        (Inl error, p1) \<Rightarrow>
          (Inl (ContextRecoveryFailedError (sessionId session)
                  (if instanceofError error then Some error else None)), session, p1)
      | (Inr newContext, p1) \<Rightarrow>
          (case replay c (ctxId newContext) (items session) p1 of
             (Inl error, p2) \<Rightarrow>
               (Inl (ContextRecoveryFailedError (sessionId session)
                       (if instanceofError error then Some error else None)), session, p2)
           | (Inr u, p2) \<Rightarrow>
               (Inr (), session\<lparr>sfContextId := ctxId newContext\<rparr>, p2)))"

definition cs_createCart ::
  "'p ISalesforceCartClient \<Rightarrow> int \<Rightarrow> cs_state \<times> 'p \<Rightarrow> (exn + string \<times> Cart) \<times> cs_state \<times> 'p" where
  "cs_createCart c t st =
     (case st of (svc, p) \<Rightarrow>
        let sid = ''sess_'' @ randomUUID (sessionSupply svc);
            svc0 = svc\<lparr>sessionSupply := Suc (sessionSupply svc)\<rparr>
        in (case createContext c p of
              (Inl e, p1) \<Rightarrow> (Inl e, svc0, p1)
            | (Inr sfContext, p1) \<Rightarrow>
                let session = \<lparr>sessionId = sid, sfContextId = ctxId sfContext, items = [],
                               createdAt = t, lastAccessed = t\<rparr>;
                    cart = \<lparr>cartId = ''cart_'' @ sid, cartItems = [], total = Lit 0\<rparr>
                in (Inr (sid, cart), putSession sid session svc0, p1)))"

definition cs_getCart ::
  "'p ISalesforceCartClient \<Rightarrow> int \<Rightarrow> string \<Rightarrow> cs_state \<times> 'p \<Rightarrow> (exn + Cart) \<times> cs_state \<times> 'p" where
  "cs_getCart c t sid st =
     (case st of (svc, p) \<Rightarrow>
        (case getSession svc sid of
           Inl e \<Rightarrow> (Inl e, svc, p)
         | Inr session0 \<Rightarrow>
             let session = session0\<lparr>lastAccessed := t\<rparr> in
             (case getCart c (sfContextId session) p of
                (Inr cart, p1) \<Rightarrow> (Inr cart, putSession sid session svc, p1)
              | (Inl error, p1) \<Rightarrow>
                  if instanceofContextExpiredError error then
                    (case recoverContext c session p1 of
                       (Inl e, session1, p2) \<Rightarrow> (Inl e, putSession sid session1 svc, p2)
                     | (Inr u, session1, p2) \<Rightarrow>
                         (case getCart c (sfContextId session1) p2 of
                            (r, p3) \<Rightarrow> (r, putSession sid session1 svc, p3)))
                  else (Inl error, putSession sid session svc, p1))))"

definition cs_addItem ::
  "'p ISalesforceCartClient \<Rightarrow> int \<Rightarrow> string \<Rightarrow> CartItemInput \<Rightarrow> cs_state \<times> 'p
     \<Rightarrow> (exn + Cart) \<times> cs_state \<times> 'p" where
  "cs_addItem c t sid item st =
     (case st of (svc, p) \<Rightarrow>
        (case getSession svc sid of
           Inl e \<Rightarrow> (Inl e, svc, p)
         | Inr session0 \<Rightarrow>
             let session = session0\<lparr>lastAccessed := t\<rparr> in
             (case addItem c (sfContextId session) item p of
                (Inr cart, p1) \<Rightarrow>
                  (Inr cart, putSession sid (syncSessionItems session (cartItems cart)) svc, p1)
              | (Inl error, p1) \<Rightarrow>
                  if instanceofContextExpiredError error then
                    (case recoverContext c session p1 of
                       (Inl e, session1, p2) \<Rightarrow> (Inl e, putSession sid session1 svc, p2)
                     | (Inr u, session1, p2) \<Rightarrow>
                         (case addItem c (sfContextId session1) item p2 of
                            (Inl e, p3) \<Rightarrow> (Inl e, putSession sid session1 svc, p3)
                          | (Inr cart, p3) \<Rightarrow>
                              (Inr cart,
                               putSession sid (syncSessionItems session1 (cartItems cart)) svc,
                               p3)))
                  else (Inl error, putSession sid session svc, p1))))"

text \<open>
  The part of \<open>removeItem\<close>'s catch block after \<open>recoverContext\<close> has returned: \<open>error\<close> is
  the caught expired-context error, \<open>session\<close> the recovered session.
\<close>

definition removeAfterRecovery ::
  "'p ISalesforceCartClient \<Rightarrow> string \<Rightarrow> string \<Rightarrow> exn \<Rightarrow> SessionCart \<Rightarrow> cs_state \<Rightarrow> 'p
     \<Rightarrow> (exn + Cart) \<times> cs_state \<times> 'p" where
  "removeAfterRecovery c sid iid error session svc p =
     (case find (\<lambda>item. itemId item = iid) (items session) of
        None \<Rightarrow> (Inl error, putSession sid session svc, p)
      | Some itemToRemove \<Rightarrow>
          (case getCart c (sfContextId session) p of
             (Inl e, p1) \<Rightarrow> (Inl e, putSession sid session svc, p1)
           | (Inr recoveredCart, p1) \<Rightarrow>
               (case find (\<lambda>item. productId item = productId itemToRemove)
                       (cartItems recoveredCart) of
                  None \<Rightarrow>
                    (Inl (ContextRecoveryFailedError sid None), putSession sid session svc, p1)
                | Some newItem \<Rightarrow>
                    (case removeItem c (sfContextId session) (itemId newItem) p1 of
                       (Inl e, p2) \<Rightarrow> (Inl e, putSession sid session svc, p2)
                     | (Inr cart, p2) \<Rightarrow>
                         (Inr cart,
                          putSession sid (syncSessionItems session (cartItems cart)) svc,
                          p2)))))"

definition cs_removeItem ::
  "'p ISalesforceCartClient \<Rightarrow> int \<Rightarrow> string \<Rightarrow> string \<Rightarrow> cs_state \<times> 'p
     \<Rightarrow> (exn + Cart) \<times> cs_state \<times> 'p" where
  "cs_removeItem c t sid iid st =
     (case st of (svc, p) \<Rightarrow>
        (case getSession svc sid of
           Inl e \<Rightarrow> (Inl e, svc, p)
         | Inr session0 \<Rightarrow>
             let session = session0\<lparr>lastAccessed := t\<rparr> in
             (case removeItem c (sfContextId session) iid p of
                (Inr cart, p1) \<Rightarrow>
                  (Inr cart, putSession sid (syncSessionItems session (cartItems cart)) svc, p1)
              | (Inl error, p1) \<Rightarrow>
                  if instanceofContextExpiredError error then
                    (case recoverContext c session p1 of
                       (Inl e, session1, p2) \<Rightarrow> (Inl e, putSession sid session1 svc, p2)
                     | (Inr u, session1, p2) \<Rightarrow>
                         removeAfterRecovery c sid iid error session1 svc p2)
                  else (Inl error, putSession sid session svc, p1))))"

definition updateAfterRecovery ::
  "'p ISalesforceCartClient \<Rightarrow> string \<Rightarrow> string \<Rightarrow> int \<Rightarrow> exn \<Rightarrow> SessionCart \<Rightarrow> cs_state \<Rightarrow> 'p
     \<Rightarrow> (exn + Cart) \<times> cs_state \<times> 'p" where
  "updateAfterRecovery c sid iid q error session svc p =
     (case find (\<lambda>item. itemId item = iid) (items session) of
        None \<Rightarrow> (Inl error, putSession sid session svc, p)
      | Some itemToUpdate \<Rightarrow>
          (case getCart c (sfContextId session) p of
             (Inl e, p1) \<Rightarrow> (Inl e, putSession sid session svc, p1)
           | (Inr recoveredCart, p1) \<Rightarrow>
               (case find (\<lambda>item. productId item = productId itemToUpdate)
                       (cartItems recoveredCart) of
                  None \<Rightarrow>
                    (Inl (ContextRecoveryFailedError sid None), putSession sid session svc, p1)
                | Some newItem \<Rightarrow>
                    (case updateItem c (sfContextId session) (itemId newItem) q p1 of
                       (Inl e, p2) \<Rightarrow> (Inl e, putSession sid session svc, p2)
                     | (Inr cart, p2) \<Rightarrow>
                         (Inr cart,
                          putSession sid (syncSessionItems session (cartItems cart)) svc,
                          p2)))))"

definition cs_updateItem ::
  "'p ISalesforceCartClient \<Rightarrow> int \<Rightarrow> string \<Rightarrow> string \<Rightarrow> int \<Rightarrow> cs_state \<times> 'p
     \<Rightarrow> (exn + Cart) \<times> cs_state \<times> 'p" where
  "cs_updateItem c t sid iid q st =
     (case st of (svc, p) \<Rightarrow>
        (case getSession svc sid of
           Inl e \<Rightarrow> (Inl e, svc, p)
         | Inr session0 \<Rightarrow>
             let session = session0\<lparr>lastAccessed := t\<rparr> in
             (case updateItem c (sfContextId session) iid q p of
                (Inr cart, p1) \<Rightarrow>
                  (Inr cart, putSession sid (syncSessionItems session (cartItems cart)) svc, p1)
              | (Inl error, p1) \<Rightarrow>
                  if instanceofContextExpiredError error then
                    (case recoverContext c session p1 of
                       (Inl e, session1, p2) \<Rightarrow> (Inl e, putSession sid session1 svc, p2)
                     | (Inr u, session1, p2) \<Rightarrow>
                         updateAfterRecovery c sid iid q error session1 svc p2)
                  else (Inl error, putSession sid session svc, p1))))"

section \<open>Observing the provider calls\<close>

text \<open>
  \<open>traced c\<close> is the client \<open>c\<close> with a log: every call is appended to it, whatever the
  call returns. The service cannot tell the two apart.
\<close>

datatype call =
    CreateContextCall
  | AddItemCall string CartItemInput
  | GetCartCall string
  | RemoveItemCall string string
  | UpdateItemCall string string int

definition logged :: "call \<Rightarrow> ('p \<Rightarrow> 'r \<times> 'p) \<Rightarrow> 'p \<times> call list \<Rightarrow> 'r \<times> 'p \<times> call list" where
  "logged k f st = (case st of (p, tr) \<Rightarrow> (case f p of (r, p') \<Rightarrow> (r, p', tr @ [k])))"

definition traced :: "'p ISalesforceCartClient \<Rightarrow> ('p \<times> call list) ISalesforceCartClient" where
  "traced c =
     \<lparr>createContext = logged CreateContextCall (createContext c),
      addItem = (\<lambda>cid item. logged (AddItemCall cid item) (addItem c cid item)),
      getCart = (\<lambda>cid. logged (GetCartCall cid) (getCart c cid)),
      removeItem = (\<lambda>cid iid. logged (RemoveItemCall cid iid) (removeItem c cid iid)),
      updateItem = (\<lambda>cid iid q. logged (UpdateItemCall cid iid q) (updateItem c cid iid q))\<rparr>"

section \<open>The service on the test double, with induced expiries\<close>

text \<open>
  A world is the service state and the state of the test double. An event is a call of
  the service by its caller, or an induced expiry: the test helper \<open>expireContext\<close>, or
  the clock moving forward.
\<close>

type_synonym world = "cs_state \<times> sf_state"

datatype operation =
    CreateCart
  | GetCart string
  | AddItem string CartItemInput
  | RemoveItem string string
  | UpdateItem string string int

datatype event = Call operation | ExpireContext string | Advance nat

datatype response = Created string Cart | Returned Cart | Thrown exn | Silent

definition advanceClock :: "nat \<Rightarrow> sf_state \<Rightarrow> sf_state" where
  "advanceClock d sf = sf\<lparr>clock := clock sf + int d\<rparr>"

definition returned :: "(exn + Cart) \<times> world \<Rightarrow> response \<times> world" where
  "returned x = (case x of (Inl e, w) \<Rightarrow> (Thrown e, w) | (Inr cart, w) \<Rightarrow> (Returned cart, w))"

fun perform :: "operation \<Rightarrow> world \<Rightarrow> response \<times> world" where
  "perform CreateCart w =
     (case cs_createCart SalesforceCartClient (clock (snd w)) w of
        (Inl e, w') \<Rightarrow> (Thrown e, w')
      | (Inr (sid, cart), w') \<Rightarrow> (Created sid cart, w'))"
| "perform (GetCart sid) w = returned (cs_getCart SalesforceCartClient (clock (snd w)) sid w)"
| "perform (AddItem sid item) w =
     returned (cs_addItem SalesforceCartClient (clock (snd w)) sid item w)"
| "perform (RemoveItem sid iid) w =
     returned (cs_removeItem SalesforceCartClient (clock (snd w)) sid iid w)"
| "perform (UpdateItem sid iid q) w =
     returned (cs_updateItem SalesforceCartClient (clock (snd w)) sid iid q w)"

fun step :: "event \<Rightarrow> world \<Rightarrow> response \<times> world" where
  "step (Call op) w = perform op w"
| "step (ExpireContext cid) w = (Silent, fst w, expireContext cid (snd w))"
| "step (Advance d) w = (Silent, fst w, advanceClock d (snd w))"

fun run :: "event list \<Rightarrow> world \<Rightarrow> response list \<times> world" where
  "run [] w = ([], w)"
| "run (e # es) w =
     (case step e w of (r, w') \<Rightarrow> (case run es w' of (rs, w'') \<Rightarrow> (r # rs, w'')))"

definition world_init :: "int \<Rightarrow> world" where
  "world_init t = (cs_init, sf_init t)"

definition reachable :: "world \<Rightarrow> bool" where
  "reachable w = (\<exists>evs t. w = snd (run evs (world_init t)))"

section \<open>Observations\<close>

text \<open>What a result or a provider state is: used to state the claims.\<close>

definition throwsExpired :: "exn + 'a \<Rightarrow> bool" where
  "throwsExpired r = (case r of Inl e \<Rightarrow> instanceofContextExpiredError e | Inr v \<Rightarrow> False)"

definition unknownOrPast :: "sf_state \<Rightarrow> string \<Rightarrow> bool" where
  "unknownOrPast sf cid =
     (case contexts sf cid of None \<Rightarrow> True | Some cd \<Rightarrow> expiresAt (cdContext cd) < clock sf)"

fun isRecoveryFailed :: "exn + 'a \<Rightarrow> bool" where
  "isRecoveryFailed (Inl (ContextRecoveryFailedError sid cause)) = True"
| "isRecoveryFailed r = False"

fun sessionOf :: "operation \<Rightarrow> string option" where
  "sessionOf CreateCart = None"
| "sessionOf (GetCart sid) = Some sid"
| "sessionOf (AddItem sid item) = Some sid"
| "sessionOf (RemoveItem sid iid) = Some sid"
| "sessionOf (UpdateItem sid iid q) = Some sid"

text \<open>
  The calls to \<open>createContext\<close> in a log, and the shape of the log after the first
  provider call of an operation: a recovery, begun by \<open>createContext\<close> and with no second
  \<open>createContext\<close>, exactly when the first call threw an expired-context error.
\<close>

fun isCreate :: "call \<Rightarrow> bool" where
  "isCreate CreateContextCall = True"
| "isCreate k = False"

definition createCalls :: "call list \<Rightarrow> nat" where
  "createCalls tr = length (filter isCreate tr)"

definition oneRecovery :: "exn + Cart \<Rightarrow> call list \<Rightarrow> bool" where
  "oneRecovery first rest =
     (if throwsExpired first
      then (\<exists>more. rest = CreateContextCall # more \<and> createCalls more = 0)
      else rest = [])"

text \<open>
  What the caller sees of a response: the session id, the error, and of a cart the items
  without their ids (product id, name, price, quantity, in order) and the total.
  \<open>visibleRun\<close> lists it for the calls of a run; induced expiries show nothing.
\<close>

datatype visible =
    VCreated string "CartItemInput list" number
  | VCart "CartItemInput list" number
  | VThrown exn

fun visibleOf :: "response \<Rightarrow> visible option" where
  "visibleOf (Created sid cart) = Some (VCreated sid (map inputOf (cartItems cart)) (total cart))"
| "visibleOf (Returned cart) = Some (VCart (map inputOf (cartItems cart)) (total cart))"
| "visibleOf (Thrown e) = Some (VThrown e)"
| "visibleOf Silent = None"

definition visibleRun :: "event list \<Rightarrow> world \<Rightarrow> visible list" where
  "visibleRun evs w = List.map_filter visibleOf (fst (run evs w))"

fun isCall :: "event \<Rightarrow> bool" where
  "isCall (Call op) = True"
| "isCall e = False"

fun usesItemId :: "event \<Rightarrow> bool" where
  "usesItemId (Call (RemoveItem sid iid)) = True"
| "usesItemId (Call (UpdateItem sid iid q)) = True"
| "usesItemId e = False"

text \<open>
  The total of a list of items given without their ids: the sum that \<open>buildCart\<close> evaluates
  over items with these product ids, names, prices and quantities. \<open>summed lit add mul\<close> is
  that sum as a number: from zero, in the order of the items, adding price times quantity,
  with \<open>add\<close> and \<open>mul\<close> for the arithmetic.
\<close>

definition inputsTotal :: "CartItemInput list \<Rightarrow> number" where
  "inputsTotal xs =
     foldl (\<lambda>sum item. Add sum (Mul (Lit (price item)) (Lit (of_int (quantity item))))) (Lit 0) xs"


text \<open>
  The cause that \<open>recoverContext\<close> attaches for a caught value. \<open>allAdded c cid xs p p'\<close>: the
  calls \<open>addItem\<close> of the client \<open>c\<close> on the context \<open>cid\<close>, for the items \<open>xs\<close> in their order,
  all returned, and took the provider from the state \<open>p\<close> to the state \<open>p'\<close>.
\<close>

definition causeOf :: "exn \<Rightarrow> exn option" where
  "causeOf error = (if instanceofError error then Some error else None)"

fun allAdded :: "'p ISalesforceCartClient \<Rightarrow> string \<Rightarrow> CartItem list \<Rightarrow> 'p \<Rightarrow> 'p \<Rightarrow> bool" where
  "allAdded c cid [] p p' = (p' = p)"
| "allAdded c cid (item # rest) p p' =
     (case addItem c cid (inputOf item) p of
        (Inl e, p1) \<Rightarrow> False
      | (Inr cart, p1) \<Rightarrow> allAdded c cid rest p1 p')"

definition carts :: "world \<Rightarrow> nat \<times> (string \<rightharpoonup> CartItemInput list)" where
  "carts w =
     (sessionSupply (fst w), \<lambda>sid. map_option (\<lambda>s. map inputOf (items s)) (sessions (fst w) sid))"

section \<open>The state after a recovery, and the invariant\<close>

text \<open>
  On the test double a recovery always ends in the state \<open>migrated\<close>: a fresh context
  holding the session's items under newly counted ids (\<open>reissue\<close>).
\<close>

fun reissue :: "nat \<Rightarrow> CartItem list \<Rightarrow> CartItem list" where
  "reissue n [] = []"
| "reissue n (item # rest) =
     \<lparr>productId = productId item, name = name item, price = price item,
      quantity = quantity item, itemId = ''item_'' @ showNat (Suc n)\<rparr> # reissue (Suc n) rest"

definition freshContext :: "sf_state \<Rightarrow> CartContext" where
  "freshContext sf =
     \<lparr>ctxId = ''ctx_'' @ randomUUID (uuidSupply sf), expiresAt = clock sf + CONTEXT_EXPIRY_MS\<rparr>"

definition migrated :: "CartItem list \<Rightarrow> sf_state \<Rightarrow> sf_state" where
  "migrated its sf =
     sf\<lparr>contexts := (contexts sf)(ctxId (freshContext sf) \<mapsto>
           \<lparr>cdContext = freshContext sf, ctxItems = reissue (itemCounter sf) its\<rparr>),
        itemCounter := itemCounter sf + length its,
        uuidSupply := Suc (uuidSupply sf)\<rparr>"

text \<open>
  \<open>mirrors\<close>: the session's context, if the provider has it, holds the session's items up
  to their ids and is stored under its own id. \<open>sessionStep\<close> says what one operation on
  a session does to the world. \<open>Inv\<close> holds in every reachable world: context ids and
  session ids come from the supplies, every session is mirrored, and no two sessions
  share a context.
\<close>

definition mirrors :: "sf_state \<Rightarrow> SessionCart \<Rightarrow> bool" where
  "mirrors sf s =
     (\<forall>cd. contexts sf (sfContextId s) = Some cd \<longrightarrow>
        map inputOf (ctxItems cd) = map inputOf (items s) \<and> ctxId (cdContext cd) = sfContextId s)"

definition sessionStep ::
  "cs_state \<times> sf_state \<Rightarrow> string \<Rightarrow> SessionCart \<Rightarrow> exn + Cart \<Rightarrow> cs_state \<times> sf_state \<Rightarrow> bool" where
  "sessionStep w sid s0 r w' =
     (case sessions (fst w') sid of None \<Rightarrow> False | Some s' \<Rightarrow>
        fst w' = putSession sid s' (fst w) \<and>
        (case getValidContext (snd w) (sfContextId s0) of
           Inr cd \<Rightarrow>
             sfContextId s' = sfContextId s0 \<and> uuidSupply (snd w') = uuidSupply (snd w)
         | Inl e \<Rightarrow>
             sfContextId s' = ctxId (freshContext (snd w)) \<and>
             uuidSupply (snd w') = Suc (uuidSupply (snd w))) \<and>
        (\<forall>k. k \<noteq> sfContextId s' \<longrightarrow> contexts (snd w') k = contexts (snd w) k) \<and>
        (\<forall>cd. contexts (snd w') (sfContextId s') = Some cd \<longrightarrow>
              map inputOf (ctxItems cd) = map inputOf (items s') \<and>
              ctxId (cdContext cd) = sfContextId s') \<and>
        (\<forall>cart. r = Inr cart \<longrightarrow>
              (\<exists>cd. contexts (snd w') (sfContextId s') = Some cd \<and> cart = buildCart cd)))"

definition Inv :: "world \<Rightarrow> bool" where
  "Inv w =
     ((\<forall>sid s. sessions (fst w) sid = Some s \<longrightarrow>
           (\<exists>k<uuidSupply (snd w). sfContextId s = ''ctx_'' @ randomUUID k) \<and>
           (\<exists>k<sessionSupply (fst w). sid = ''sess_'' @ randomUUID k) \<and>
           mirrors (snd w) s) \<and>
      (\<forall>sid sid' s s'. sessions (fst w) sid = Some s \<longrightarrow> sessions (fst w) sid' = Some s' \<longrightarrow>
           sfContextId s = sfContextId s' \<longrightarrow> sid = sid'))"

section \<open>Other providers\<close>

text \<open>
  \<open>downClient\<close> is the test double with \<open>createContext\<close> failing (the provider is
  unavailable). \<open>refusing pid v\<close> is the test double with \<open>addItem\<close> throwing the value \<open>v\<close>
  for the product \<open>pid\<close>, and serving every other call.
\<close>

definition unavailable :: "sf_state \<Rightarrow> (exn + CartContext) \<times> sf_state" where
  "unavailable sf = (Inl (OtherError ''Provider unavailable''), sf)"

definition downClient :: "sf_state ISalesforceCartClient" where
  "downClient = SalesforceCartClient\<lparr>createContext := unavailable\<rparr>"

definition refusing :: "string \<Rightarrow> exn \<Rightarrow> sf_state ISalesforceCartClient" where
  "refusing pid v =
     SalesforceCartClient\<lparr>addItem :=
       (\<lambda>cid item sf. if productId item = pid then (Inl v, sf) else sf_addItem cid item sf)\<rparr>"

section \<open>Concrete inputs\<close>

definition phone :: CartItemInput where
  "phone = \<lparr>productId = ''p1'', name = ''Phone'', price = 100, quantity = 1\<rparr>"

definition plan :: CartItemInput where
  "plan = \<lparr>productId = ''p2'', name = ''Plan'', price = 50, quantity = 2\<rparr>"

definition twoPhones :: CartItemInput where
  "twoPhones = \<lparr>productId = ''p1'', name = ''Phone'', price = 100, quantity = 2\<rparr>"

definition phoneSession :: SessionCart where
  "phoneSession =
     \<lparr>sessionId = ''sess_0'', sfContextId = ''ctx_0'',
      items = [\<lparr>productId = ''p1'', name = ''Phone'', price = 100, quantity = 1,
                itemId = ''item_1''\<rparr>],
      createdAt = 0, lastAccessed = 0\<rparr>"

definition phoneItem :: CartItem where
  "phoneItem =
     \<lparr>productId = ''p1'', name = ''Phone'', price = 100, quantity = 1, itemId = ''item_1''\<rparr>"

definition planItem :: CartItem where
  "planItem =
     \<lparr>productId = ''p2'', name = ''Plan'', price = 50, quantity = 2, itemId = ''item_2''\<rparr>"

definition phonePlanSession :: SessionCart where
  "phonePlanSession =
     \<lparr>sessionId = ''sess_0'', sfContextId = ''ctx_0'', items = [phoneItem, planItem],
      createdAt = 0, lastAccessed = 0\<rparr>"

definition expiredWorld :: world where
  "expiredWorld =
     snd (run [Call CreateCart, Call (AddItem ''sess_0'' phone), ExpireContext ''ctx_0'']
            (world_init 0))"

definition expiredWorld2 :: world where
  "expiredWorld2 =
     snd (run [Call CreateCart, Call (AddItem ''sess_0'' phone), Call (AddItem ''sess_0'' plan),
               ExpireContext ''ctx_0''] (world_init 0))"

definition boundaryState :: sf_state where
  "boundaryState = advanceClock 1800000 (snd (sf_createContext (sf_init 0)))"

definition pastState :: sf_state where
  "pastState = advanceClock 1800001 (snd (sf_createContext (sf_init 0)))"

definition scenarioB :: "event list" where
  "scenarioB =
     [Call CreateCart, Call (AddItem ''sess_0'' phone), ExpireContext ''ctx_0'',
      Call (AddItem ''sess_0'' plan), Advance 1800001, Call (GetCart ''sess_0''),
      Call (GetCart ''sess_7'')]"

definition duplicateProducts :: "event list" where
  "duplicateProducts =
     [Call CreateCart, Call (AddItem ''sess_0'' phone), Call (AddItem ''sess_0'' twoPhones),
      ExpireContext ''ctx_0'', Call (RemoveItem ''sess_0'' ''item_2'')]"

section \<open>Lemmas\<close>

subsection \<open>Generated identifiers are distinct\<close>

lemma digit_inj: "a < 10 \<Longrightarrow> b < 10 \<Longrightarrow> digit a = digit b \<Longrightarrow> a = b"
proof -
  have en: "\<And>n::nat. n < 10 \<Longrightarrow> n \<in> {0,1,2,3,4,5,6,7,8,9}" by auto
  assume "a < 10" "b < 10" "digit a = digit b"
  with en[of a] en[of b] show ?thesis
    by (auto simp: digit_def)
qed

lemma showNat_nonempty: "showNat n \<noteq> []"
  by (subst showNat.simps) simp

lemma showNat_inj: "showNat m = showNat n \<Longrightarrow> m = n"
proof (induction m arbitrary: n rule: showNat.induct)
  case (1 m)
  show ?case
  proof (cases "m < 10")
    case True
    show ?thesis
    proof (cases "n < 10")
      case T2: True
      from "1.prems" True T2 have "digit m = digit n"
        by (simp add: showNat.simps[of m] showNat.simps[of n])
      with True T2 show ?thesis by (simp add: digit_inj)
    next
      case False
      with "1.prems" True show ?thesis
        using showNat_nonempty[of "n div 10"]
        by (simp add: showNat.simps[of m] showNat.simps[of n])
    qed
  next
    case False
    show ?thesis
    proof (cases "n < 10")
      case True
      with "1.prems" False show ?thesis
        using showNat_nonempty[of "m div 10"]
        by (simp add: showNat.simps[of m] showNat.simps[of n])
    next
      case F2: False
      from "1.prems" False F2
      have a: "showNat (m div 10) = showNat (n div 10)" and b: "digit (m mod 10) = digit (n mod 10)"
        by (simp_all add: showNat.simps[of m] showNat.simps[of n])
      from "1.IH"[OF False a] have c: "m div 10 = n div 10" .
      from b have d: "m mod 10 = n mod 10" by (intro digit_inj) simp_all
      from c d show ?thesis by (metis div_mult_mod_eq)
    qed
  qed
qed

subsection \<open>Unknown sessions\<close>

lemma getSession_None: "sessions svc sid = None \<Longrightarrow> getSession svc sid = Inl (CartNotFoundError sid)"
  by (simp add: getSession_def)

lemma cs_unknown_session:
  assumes "sessions svc sid = None"
  shows "cs_getCart c t sid (svc, p) = (Inl (CartNotFoundError sid), svc, p)
       \<and> cs_addItem c t sid item (svc, p) = (Inl (CartNotFoundError sid), svc, p)
       \<and> cs_removeItem c t sid iid (svc, p) = (Inl (CartNotFoundError sid), svc, p)
       \<and> cs_updateItem c t sid iid q (svc, p) = (Inl (CartNotFoundError sid), svc, p)"
  using assms
  by (simp add: cs_getCart_def cs_addItem_def cs_removeItem_def cs_updateItem_def getSession_def)

subsection \<open>The test double, call by call\<close>

lemma getValidContext_expired:
  "contexts sf cid = None \<or> (\<exists>cd. contexts sf cid = Some cd \<and> expiresAt (cdContext cd) < clock sf)
   \<Longrightarrow> getValidContext sf cid = Inl (ContextExpiredError cid)"
  by (auto simp: getValidContext_def)

lemma getValidContext_live:
  "contexts sf cid = Some cd \<Longrightarrow> clock sf \<le> expiresAt (cdContext cd)
   \<Longrightarrow> getValidContext sf cid = Inr cd"
  by (auto simp: getValidContext_def)



lemma client_simps [simp]:
  "createContext SalesforceCartClient = sf_createContext"
  "addItem SalesforceCartClient = sf_addItem"
  "getCart SalesforceCartClient = sf_getCart"
  "removeItem SalesforceCartClient = sf_removeItem"
  "updateItem SalesforceCartClient = sf_updateItem"
  by (simp_all add: SalesforceCartClient_def)

lemma inputOf_reissue: "map inputOf (reissue n xs) = map inputOf xs"
  by (induction xs arbitrary: n) (simp_all add: inputOf_def)

lemma length_reissue [simp]: "length (reissue n xs) = length xs"
  by (induction xs arbitrary: n) simp_all

lemma replay_sf:
  assumes "contexts sf cid = Some cd" "clock sf \<le> expiresAt (cdContext cd)"
  shows "replay SalesforceCartClient cid xs sf =
           (Inr (), sf\<lparr>contexts := (contexts sf)(cid \<mapsto>
                          cd\<lparr>ctxItems := ctxItems cd @ reissue (itemCounter sf) xs\<rparr>),
                       itemCounter := itemCounter sf + length xs\<rparr>)"
  using assms
proof (induction xs arbitrary: sf cd)
  case Nil
  then show ?case by (simp add: fun_upd_idem)
next
  case (Cons x xs)
  let ?it = "\<lparr>productId = productId x, name = name x, price = price x,
      quantity = quantity x, itemId = ''item_'' @ showNat (Suc (itemCounter sf))\<rparr>"
  let ?cd = "cd\<lparr>ctxItems := ctxItems cd @ [?it]\<rparr>"
  let ?sf = "sf\<lparr>contexts := (contexts sf)(cid \<mapsto> ?cd), itemCounter := Suc (itemCounter sf)\<rparr>"
  have a: "sf_addItem cid (inputOf x) sf = (Inr (buildCart ?cd), ?sf)"
    using Cons.prems by (simp add: sf_addItem_def getValidContext_def inputOf_def Let_def)
  have b: "contexts ?sf cid = Some ?cd" "clock ?sf \<le> expiresAt (cdContext ?cd)"
    using Cons.prems by simp_all
  have "replay SalesforceCartClient cid (x # xs) sf = replay SalesforceCartClient cid xs ?sf"
    by (simp add: a)
  also have "\<dots> = (Inr (), ?sf\<lparr>contexts := (contexts ?sf)(cid \<mapsto>
                          ?cd\<lparr>ctxItems := ctxItems ?cd @ reissue (itemCounter ?sf) xs\<rparr>),
                       itemCounter := itemCounter ?sf + length xs\<rparr>)"
    by (rule Cons.IH[OF b])
  also have "\<dots> = (Inr (), sf\<lparr>contexts := (contexts sf)(cid \<mapsto>
                          cd\<lparr>ctxItems := ctxItems cd @ reissue (itemCounter sf) (x # xs)\<rparr>),
                       itemCounter := itemCounter sf + length (x # xs)\<rparr>)"
    by simp
  finally show ?case .
qed

lemma recoverContext_sf:
  "recoverContext SalesforceCartClient session sf =
     (Inr (), session\<lparr>sfContextId := ctxId (freshContext sf)\<rparr>, migrated (items session) sf)"
proof -
  let ?cx = "freshContext sf"
  let ?cd = "\<lparr>cdContext = ?cx, ctxItems = []\<rparr>"
  let ?sf = "sf\<lparr>contexts := (contexts sf)(ctxId ?cx \<mapsto> ?cd), uuidSupply := Suc (uuidSupply sf)\<rparr>"
  have a: "sf_createContext sf = (Inr ?cx, ?sf)"
    by (simp add: sf_createContext_def freshContext_def Let_def)
  have b: "contexts ?sf (ctxId ?cx) = Some ?cd" "clock ?sf \<le> expiresAt (cdContext ?cd)"
    by (simp_all add: freshContext_def CONTEXT_EXPIRY_MS_def)
  show ?thesis
    by (simp add: recoverContext_def a replay_sf[OF b] migrated_def)
qed

lemma getValidContext_cases:
  obtains "getValidContext sf cid = Inl (ContextExpiredError cid)"
  | cd where "getValidContext sf cid = Inr cd" "contexts sf cid = Some cd"
      "clock sf \<le> expiresAt (cdContext cd)"
proof (cases "contexts sf cid")
  case None
  then show ?thesis using that(1) by (simp add: getValidContext_def)
next
  case (Some cd)
  show ?thesis
  proof (cases "clock sf > expiresAt (cdContext cd)")
    case True
    with Some show ?thesis using that(1) by (simp add: getValidContext_def)
  next
    case False
    with Some show ?thesis using that(2)[of cd] by (simp add: getValidContext_def)
  qed
qed

lemma putSession_simps [simp]:
  "sessions (putSession sid s svc) = (sessions svc)(sid \<mapsto> s)"
  "sessionSupply (putSession sid s svc) = sessionSupply svc"
  by (simp_all add: putSession_def)

lemma migrated_live:
  "getValidContext (migrated its sf) (ctxId (freshContext sf)) =
     Inr \<lparr>cdContext = freshContext sf, ctxItems = reissue (itemCounter sf) its\<rparr>"
  by (simp add: getValidContext_def migrated_def freshContext_def CONTEXT_EXPIRY_MS_def)

lemma migrated_simps [simp]:
  "uuidSupply (migrated its sf) = Suc (uuidSupply sf)"
  "clock (migrated its sf) = clock sf"
  "k \<noteq> ctxId (freshContext sf) \<Longrightarrow> contexts (migrated its sf) k = contexts sf k"
  "contexts (migrated its sf) (ctxId (freshContext sf)) =
     Some \<lparr>cdContext = freshContext sf, ctxItems = reissue (itemCounter sf) its\<rparr>"
  by (simp_all add: migrated_def)

subsection \<open>What one operation does to a session\<close>

lemma cs_getCart_shape:
  assumes "sessions svc sid = Some s0" "mirrors sf s0"
    and "cs_getCart SalesforceCartClient t sid (svc, sf) = (r, w')"
  shows "sessionStep (svc, sf) sid s0 r w'"
proof (cases rule: getValidContext_cases[of sf "sfContextId s0"])
  case 1
  with assms show ?thesis
    by (auto simp: cs_getCart_def getSession_def sf_getCart_def recoverContext_sf migrated_live
        sessionStep_def inputOf_reissue)
next
  case (2 cd)
  with assms show ?thesis
    by (auto simp: cs_getCart_def getSession_def sf_getCart_def sessionStep_def mirrors_def)
qed

lemma migrated_counter [simp]: "itemCounter (migrated its sf) = itemCounter sf + length its"
  by (simp add: migrated_def)

lemma sf_getCart_live:
  "getValidContext sf cid = Inr cd \<Longrightarrow> sf_getCart cid sf = (Inr (buildCart cd), sf)"
  by (simp add: sf_getCart_def)

lemma sf_addItem_live:
  "getValidContext sf cid = Inr cd \<Longrightarrow>
   sf_addItem cid item sf =
     (Inr (buildCart (cd\<lparr>ctxItems := ctxItems cd @
             [\<lparr>productId = productId item, name = name item, price = price item,
               quantity = quantity item, itemId = ''item_'' @ showNat (Suc (itemCounter sf))\<rparr>]\<rparr>)),
      sf\<lparr>contexts := (contexts sf)(cid \<mapsto> cd\<lparr>ctxItems := ctxItems cd @
             [\<lparr>productId = productId item, name = name item, price = price item,
               quantity = quantity item, itemId = ''item_'' @ showNat (Suc (itemCounter sf))\<rparr>]\<rparr>),
         itemCounter := Suc (itemCounter sf)\<rparr>)"
  by (simp add: sf_addItem_def Let_def)

lemma sf_removeItem_live:
  "getValidContext sf cid = Inr cd \<Longrightarrow>
   sf_removeItem cid iid sf =
     (case findIndex (\<lambda>item. itemId item = iid) (ctxItems cd) of
        None \<Rightarrow> (Inl (ItemNotFoundError iid), sf)
      | Some i \<Rightarrow>
          (Inr (buildCart (cd\<lparr>ctxItems := splice1 i (ctxItems cd)\<rparr>)),
           sf\<lparr>contexts := (contexts sf)(cid \<mapsto> cd\<lparr>ctxItems := splice1 i (ctxItems cd)\<rparr>)\<rparr>))"
  by (simp add: sf_removeItem_def Let_def split: option.splits)

lemma sf_updateItem_live:
  "getValidContext sf cid = Inr cd \<Longrightarrow>
   sf_updateItem cid iid q sf =
     (case findIndex (\<lambda>item. itemId item = iid) (ctxItems cd) of
        None \<Rightarrow> (Inl (ItemNotFoundError iid), sf)
      | Some i \<Rightarrow>
          (Inr (buildCart (cd\<lparr>ctxItems := (ctxItems cd)[i := (ctxItems cd ! i)\<lparr>quantity := q\<rparr>]\<rparr>)),
           sf\<lparr>contexts := (contexts sf)(cid \<mapsto>
                cd\<lparr>ctxItems := (ctxItems cd)[i := (ctxItems cd ! i)\<lparr>quantity := q\<rparr>]\<rparr>)\<rparr>))"
  by (simp add: sf_updateItem_def Let_def split: option.splits)

lemma sf_dead:
  assumes "getValidContext sf cid = Inl e"
  shows "sf_getCart cid sf = (Inl e, sf)" "sf_addItem cid item sf = (Inl e, sf)"
    "sf_removeItem cid iid sf = (Inl e, sf)" "sf_updateItem cid iid q sf = (Inl e, sf)"
  using assms by (simp_all add: sf_getCart_def sf_addItem_def sf_removeItem_def sf_updateItem_def)

lemma cs_addItem_shape:
  assumes "sessions svc sid = Some s0" "mirrors sf s0"
    and "cs_addItem SalesforceCartClient t sid item (svc, sf) = (r, w')"
  shows "sessionStep (svc, sf) sid s0 r w'"
proof (cases rule: getValidContext_cases[of sf "sfContextId s0"])
  case 1
  with assms show ?thesis
    by (auto simp: cs_addItem_def getSession_def sf_dead recoverContext_sf
        sf_addItem_live[OF migrated_live]
        sessionStep_def inputOf_reissue syncSessionItems_def buildCart_def inputOf_def)
next
  case (2 cd)
  with assms show ?thesis
    by (auto simp: cs_addItem_def getSession_def sf_addItem_live sessionStep_def mirrors_def
         syncSessionItems_def buildCart_def)
qed

lemma cs_removeItem_shape:
  assumes "sessions svc sid = Some s0" "mirrors sf s0"
    and "cs_removeItem SalesforceCartClient t sid iid (svc, sf) = (r, w')"
  shows "sessionStep (svc, sf) sid s0 r w'"
proof (cases rule: getValidContext_cases[of sf "sfContextId s0"])
  case 1
  with assms show ?thesis
    by (auto simp: cs_removeItem_def getSession_def sf_dead recoverContext_sf
        removeAfterRecovery_def sf_getCart_live[OF migrated_live] sf_removeItem_live[OF migrated_live]
        sessionStep_def inputOf_reissue syncSessionItems_def buildCart_def Let_def
        split: option.splits)
next
  case (2 cd)
  with assms show ?thesis
    by (auto simp: cs_removeItem_def getSession_def sf_removeItem_live sessionStep_def mirrors_def
         syncSessionItems_def buildCart_def split: option.splits)
qed

lemma cs_updateItem_shape:
  assumes "sessions svc sid = Some s0" "mirrors sf s0"
    and "cs_updateItem SalesforceCartClient t sid iid q (svc, sf) = (r, w')"
  shows "sessionStep (svc, sf) sid s0 r w'"
proof (cases rule: getValidContext_cases[of sf "sfContextId s0"])
  case 1
  with assms show ?thesis
    by (auto simp: cs_updateItem_def getSession_def sf_dead recoverContext_sf
        updateAfterRecovery_def sf_getCart_live[OF migrated_live] sf_updateItem_live[OF migrated_live]
        sessionStep_def inputOf_reissue syncSessionItems_def buildCart_def Let_def
        split: option.splits)
next
  case (2 cd)
  with assms show ?thesis
    by (auto simp: cs_updateItem_def getSession_def sf_updateItem_live sessionStep_def mirrors_def
         syncSessionItems_def buildCart_def split: option.splits)
qed

subsection \<open>The invariant holds in every reachable world\<close>

lemma randomUUID_inj [simp]: "randomUUID a = randomUUID b \<longleftrightarrow> a = b"
  by (auto simp: randomUUID_def dest: showNat_inj)

lemma fresh_ctxId: "ctxId (freshContext sf) = ''ctx_'' @ randomUUID (uuidSupply sf)"
  by (simp add: freshContext_def)

lemma Inv_ctx:
  "Inv w \<Longrightarrow> sessions (fst w) sid = Some s
   \<Longrightarrow> \<exists>k<uuidSupply (snd w). sfContextId s = ''ctx_'' @ randomUUID k"
  unfolding Inv_def by blast

lemma Inv_sid:
  "Inv w \<Longrightarrow> sessions (fst w) sid = Some s
   \<Longrightarrow> \<exists>k<sessionSupply (fst w). sid = ''sess_'' @ randomUUID k"
  unfolding Inv_def by blast

lemma Inv_mirrors: "Inv w \<Longrightarrow> sessions (fst w) sid = Some s \<Longrightarrow> mirrors (snd w) s"
  unfolding Inv_def by blast

lemma Inv_inj:
  "Inv w \<Longrightarrow> sessions (fst w) sid = Some s \<Longrightarrow> sessions (fst w) sid' = Some s'
   \<Longrightarrow> sfContextId s = sfContextId s' \<Longrightarrow> sid = sid'"
  unfolding Inv_def by blast

lemma Inv_sessionStep:
  assumes inv: "Inv w" and s0: "sessions (fst w) sid = Some s0" and st: "sessionStep w sid s0 r w'"
  shows "Inv w'"
proof -
  from st obtain s' where s': "sessions (fst w') sid = Some s'"
    and svc: "fst w' = putSession sid s' (fst w)"
    and ab: "sfContextId s' = sfContextId s0 \<and> uuidSupply (snd w') = uuidSupply (snd w) \<or>
         sfContextId s' = ctxId (freshContext (snd w)) \<and> uuidSupply (snd w') = Suc (uuidSupply (snd w))"
    and frame: "\<And>k. k \<noteq> sfContextId s' \<Longrightarrow> contexts (snd w') k = contexts (snd w) k"
    and mir: "mirrors (snd w') s'"
    by (auto simp: sessionStep_def mirrors_def split: option.splits sum.splits)
  have mono: "uuidSupply (snd w) \<le> uuidSupply (snd w')" using ab by auto
  have other: "sfContextId s2 \<noteq> sfContextId s'"
    if "sessions (fst w) sid2 = Some s2" "sid2 \<noteq> sid" for sid2 s2
  proof -
    from Inv_ctx[OF inv that(1)] obtain k
      where k: "k < uuidSupply (snd w)" "sfContextId s2 = ''ctx_'' @ randomUUID k" by blast
    from Inv_inj[OF inv that(1) s0] that(2) have "sfContextId s2 \<noteq> sfContextId s0" by blast
    with ab k show ?thesis by (auto simp: fresh_ctxId)
  qed
  have own: "\<exists>k<uuidSupply (snd w'). sfContextId s' = ''ctx_'' @ randomUUID k"
  proof -
    from Inv_ctx[OF inv s0] obtain k
      where "k < uuidSupply (snd w)" "sfContextId s0 = ''ctx_'' @ randomUUID k" by blast
    with ab show ?thesis by (auto simp: fresh_ctxId)
  qed
  have sidk: "\<exists>k<sessionSupply (fst w'). sid = ''sess_'' @ randomUUID k"
    using Inv_sid[OF inv s0] svc by simp
  show ?thesis
    unfolding Inv_def
  proof (intro conjI allI impI)
    fix x s assume a: "sessions (fst w') x = Some s"
    show "\<exists>k<uuidSupply (snd w'). sfContextId s = ''ctx_'' @ randomUUID k"
    proof (cases "x = sid")
      case True with a s' own show ?thesis by simp
    next
      case False
      with a svc have "sessions (fst w) x = Some s" by simp
      from Inv_ctx[OF inv this] mono show ?thesis by (meson less_le_trans)
    qed
    show "\<exists>k<sessionSupply (fst w'). x = ''sess_'' @ randomUUID k"
    proof (cases "x = sid")
      case True with sidk show ?thesis by simp
    next
      case False
      with a svc have "sessions (fst w) x = Some s" by simp
      from Inv_sid[OF inv this] svc show ?thesis by simp
    qed
    show "mirrors (snd w') s"
    proof (cases "x = sid")
      case True with a s' mir show ?thesis by simp
    next
      case False
      with a svc have b: "sessions (fst w) x = Some s" by simp
      from Inv_mirrors[OF inv b] have "mirrors (snd w) s" .
      with frame[OF other[OF b False]] show ?thesis by (simp add: mirrors_def)
    qed
  next
    fix x y s t
    assume a: "sessions (fst w') x = Some s" "sessions (fst w') y = Some t" "sfContextId s = sfContextId t"
    show "x = y"
    proof (cases "x = sid")
      case True
      show ?thesis
      proof (cases "y = sid")
        case True with \<open>x = sid\<close> show ?thesis by simp
      next
        case False
        with a svc have "sessions (fst w) y = Some t" by simp
        from other[OF this False] a s' \<open>x = sid\<close> show ?thesis by simp
      qed
    next
      case False
      with a svc have b: "sessions (fst w) x = Some s" by simp
      show ?thesis
      proof (cases "y = sid")
        case True
        from other[OF b False] a s' True show ?thesis by simp
      next
        case F2: False
        with a svc have "sessions (fst w) y = Some t" by simp
        from Inv_inj[OF inv b this a(3)] show ?thesis .
      qed
    qed
  qed
qed

lemma Inv_init: "Inv (world_init t)"
  by (simp add: Inv_def world_init_def cs_init_def)

lemma cs_createCart_sf:
  "cs_createCart SalesforceCartClient t (svc, sf) =
     (Inr (''sess_'' @ randomUUID (sessionSupply svc),
           \<lparr>cartId = ''cart_'' @ (''sess_'' @ randomUUID (sessionSupply svc)), cartItems = [], total = Lit 0\<rparr>),
      putSession (''sess_'' @ randomUUID (sessionSupply svc))
        \<lparr>sessionId = ''sess_'' @ randomUUID (sessionSupply svc),
         sfContextId = ctxId (freshContext sf), items = [], createdAt = t, lastAccessed = t\<rparr>
        (svc\<lparr>sessionSupply := Suc (sessionSupply svc)\<rparr>),
      migrated [] sf)"
  by (simp add: cs_createCart_def sf_createContext_def Let_def migrated_def freshContext_def)

lemma Inv_createCart:
  assumes inv: "Inv w"
  shows "Inv (snd (cs_createCart SalesforceCartClient t w))"
proof -
  obtain svc sf where w: "w = (svc, sf)" by (cases w)
  let ?sid = "''sess_'' @ randomUUID (sessionSupply svc)"
  let ?s = "\<lparr>sessionId = ?sid, sfContextId = ctxId (freshContext sf), items = [],
             createdAt = t, lastAccessed = t\<rparr>"
  let ?svc = "putSession ?sid ?s (svc\<lparr>sessionSupply := Suc (sessionSupply svc)\<rparr>)"
  let ?sf = "migrated [] sf"
  have old: "sfContextId s \<noteq> ctxId (freshContext sf)" if "sessions svc x = Some s" for x s
    using Inv_ctx[OF inv, of x s] that w by (auto simp: fresh_ctxId)
  have "Inv (?svc, ?sf)"
    unfolding Inv_def
  proof (intro conjI allI impI)
    fix x s assume a: "sessions (fst (?svc, ?sf)) x = Some s"
    show "\<exists>k<uuidSupply (snd (?svc, ?sf)). sfContextId s = ''ctx_'' @ randomUUID k"
    proof (cases "x = ?sid")
      case True with a show ?thesis by (auto simp: fresh_ctxId)
    next
      case False
      with a have "sessions (fst w) x = Some s" by (simp add: w)
      from Inv_ctx[OF inv this] show ?thesis by (auto simp: w intro: less_SucI)
    qed
    show "\<exists>k<sessionSupply (fst (?svc, ?sf)). x = ''sess_'' @ randomUUID k"
    proof (cases "x = ?sid")
      case True then show ?thesis by auto
    next
      case False
      with a have "sessions (fst w) x = Some s" by (simp add: w)
      from Inv_sid[OF inv this] show ?thesis by (auto simp: w intro: less_SucI)
    qed
    show "mirrors (snd (?svc, ?sf)) s"
    proof (cases "x = ?sid")
      case True with a show ?thesis by (auto simp: mirrors_def)
    next
      case False
      with a have b: "sessions svc x = Some s" by simp
      from Inv_mirrors[OF inv, of x s] b have "mirrors sf s" by (simp add: w)
      with old[OF b] show ?thesis by (simp add: mirrors_def)
    qed
  next
    fix x y s u
    assume a: "sessions (fst (?svc, ?sf)) x = Some s" "sessions (fst (?svc, ?sf)) y = Some u"
      "sfContextId s = sfContextId u"
    show "x = y"
    proof (cases "x = ?sid")
      case True
      show ?thesis
      proof (cases "y = ?sid")
        case True with \<open>x = ?sid\<close> show ?thesis by simp
      next
        case False
        with a have "sessions svc y = Some u" by simp
        from old[OF this] a True show ?thesis by auto
      qed
    next
      case False
      with a have b: "sessions svc x = Some s" by simp
      show ?thesis
      proof (cases "y = ?sid")
        case True
        from old[OF b] a True show ?thesis by auto
      next
        case F2: False
        with a have "sessions svc y = Some u" by simp
        from Inv_inj[OF inv, of x s y u] b this a(3) show ?thesis by (simp add: w)
      qed
    qed
  qed
  then show ?thesis by (simp add: w cs_createCart_sf)
qed

lemma mirrors_expire: "mirrors sf s \<Longrightarrow> mirrors (expireContext cid sf) s"
  by (auto simp: mirrors_def expireContext_def split: option.splits if_splits)

lemma mirrors_advance: "mirrors sf s \<Longrightarrow> mirrors (advanceClock d sf) s"
  by (auto simp: mirrors_def advanceClock_def)

lemma expire_supply [simp]: "uuidSupply (expireContext cid sf) = uuidSupply sf"
  by (simp add: expireContext_def split: option.splits)

lemma advance_supply [simp]: "uuidSupply (advanceClock d sf) = uuidSupply sf"
  by (simp add: advanceClock_def)

lemma Inv_expire: "Inv w \<Longrightarrow> Inv (fst w, expireContext cid (snd w))"
  unfolding Inv_def by (simp add: mirrors_expire)

lemma Inv_advance: "Inv w \<Longrightarrow> Inv (fst w, advanceClock d (snd w))"
  unfolding Inv_def by (simp add: mirrors_advance)

lemma snd_returned [simp]: "snd (returned x) = snd x"
  by (auto simp: returned_def split: prod.splits sum.splits)

lemma Inv_perform:
  assumes inv: "Inv w"
  shows "Inv (snd (perform op w))"
proof -
  obtain svc sf where w: "w = (svc, sf)" by (cases w)
  have unknown: "sessions svc sid = None \<Longrightarrow>
      snd (cs_getCart SalesforceCartClient t sid (svc, sf)) = (svc, sf)
    \<and> snd (cs_addItem SalesforceCartClient t sid item (svc, sf)) = (svc, sf)
    \<and> snd (cs_removeItem SalesforceCartClient t sid iid (svc, sf)) = (svc, sf)
    \<and> snd (cs_updateItem SalesforceCartClient t sid iid q (svc, sf)) = (svc, sf)" for sid t item iid q
    using cs_unknown_session[of svc sid SalesforceCartClient t sf item iid q] by simp
  show ?thesis
  proof (cases op)
    case CreateCart
    with Inv_createCart[OF inv, of "clock (snd w)"] show ?thesis
      by (auto split: prod.splits sum.splits)
  next
    case (GetCart sid)
    show ?thesis
    proof (cases "sessions svc sid")
      case None with unknown inv GetCart show ?thesis by (simp add: w)
    next
      case (Some s0)
      obtain r w' where r: "cs_getCart SalesforceCartClient (clock sf) sid (svc, sf) = (r, w')"
        by (cases "cs_getCart SalesforceCartClient (clock sf) sid (svc, sf)")
      from Inv_mirrors[OF inv, of sid s0] Some have "mirrors sf s0" by (simp add: w)
      from cs_getCart_shape[OF Some this r] have "sessionStep (svc, sf) sid s0 r w'" .
      from Inv_sessionStep[OF inv[unfolded w] _ this] Some have "Inv w'" by simp
      with r GetCart show ?thesis by (simp add: w)
    qed
  next
    case (AddItem sid item)
    show ?thesis
    proof (cases "sessions svc sid")
      case None with unknown inv AddItem show ?thesis by (simp add: w)
    next
      case (Some s0)
      obtain r w' where r: "cs_addItem SalesforceCartClient (clock sf) sid item (svc, sf) = (r, w')"
        by (cases "cs_addItem SalesforceCartClient (clock sf) sid item (svc, sf)")
      from Inv_mirrors[OF inv, of sid s0] Some have "mirrors sf s0" by (simp add: w)
      from cs_addItem_shape[OF Some this r] have "sessionStep (svc, sf) sid s0 r w'" .
      from Inv_sessionStep[OF inv[unfolded w] _ this] Some have "Inv w'" by simp
      with r AddItem show ?thesis by (simp add: w)
    qed
  next
    case (RemoveItem sid iid)
    show ?thesis
    proof (cases "sessions svc sid")
      case None with unknown inv RemoveItem show ?thesis by (simp add: w)
    next
      case (Some s0)
      obtain r w' where r: "cs_removeItem SalesforceCartClient (clock sf) sid iid (svc, sf) = (r, w')"
        by (cases "cs_removeItem SalesforceCartClient (clock sf) sid iid (svc, sf)")
      from Inv_mirrors[OF inv, of sid s0] Some have "mirrors sf s0" by (simp add: w)
      from cs_removeItem_shape[OF Some this r] have "sessionStep (svc, sf) sid s0 r w'" .
      from Inv_sessionStep[OF inv[unfolded w] _ this] Some have "Inv w'" by simp
      with r RemoveItem show ?thesis by (simp add: w)
    qed
  next
    case (UpdateItem sid iid q)
    show ?thesis
    proof (cases "sessions svc sid")
      case None with unknown inv UpdateItem show ?thesis by (simp add: w)
    next
      case (Some s0)
      obtain r w' where r: "cs_updateItem SalesforceCartClient (clock sf) sid iid q (svc, sf) = (r, w')"
        by (cases "cs_updateItem SalesforceCartClient (clock sf) sid iid q (svc, sf)")
      from Inv_mirrors[OF inv, of sid s0] Some have "mirrors sf s0" by (simp add: w)
      from cs_updateItem_shape[OF Some this r] have "sessionStep (svc, sf) sid s0 r w'" .
      from Inv_sessionStep[OF inv[unfolded w] _ this] Some have "Inv w'" by simp
      with r UpdateItem show ?thesis by (simp add: w)
    qed
  qed
qed

lemma Inv_step: "Inv w \<Longrightarrow> Inv (snd (step e w))"
  by (cases e) (simp_all add: Inv_perform Inv_expire Inv_advance)

lemma snd_run_Cons: "snd (run (e # es) w) = snd (run es (snd (step e w)))"
  by (simp split: prod.splits)

lemma fst_run_Cons: "fst (run (e # es) w) = fst (step e w) # fst (run es (snd (step e w)))"
  by (simp split: prod.splits)

lemma Inv_run: "Inv w \<Longrightarrow> Inv (snd (run evs w))"
proof (induction evs arbitrary: w)
  case Nil then show ?case by simp
next
  case (Cons e evs)
  from Cons.IH[OF Inv_step[OF Cons.prems, of e]]
  show ?case by (simp only: snd_run_Cons)
qed

lemma reachable_Inv: "reachable w \<Longrightarrow> Inv w"
  unfolding reachable_def using Inv_run[OF Inv_init] by blast

subsection \<open>Recovery, case by case; evaluation of concrete runs\<close>

lemma showNat_0 [simp]: "showNat 0 = ''0''"
  by (simp add: showNat.simps digit_def)

lemma getValidContext_iff:
  "getValidContext sf cid =
     (if unknownOrPast sf cid then Inl (ContextExpiredError cid) else Inr (the (contexts sf cid)))"
  by (simp add: getValidContext_def unknownOrPast_def split: option.splits)

lemma recoverContext_cases:
  "(case recoverContext c session p of
      (Inl e, session', p') \<Rightarrow>
        session' = session \<and>
        (\<exists>thrown. e = ContextRecoveryFailedError (sessionId session) (causeOf thrown) \<and>
           (createContext c p = (Inl thrown, p') \<or>
            (\<exists>cx p1. createContext c p = (Inr cx, p1) \<and>
               replay c (ctxId cx) (items session) p1 = (Inl thrown, p'))))
    | (Inr u, session', p') \<Rightarrow>
        (\<exists>cx p1. createContext c p = (Inr cx, p1) \<and>
           replay c (ctxId cx) (items session) p1 = (Inr (), p') \<and>
           session' = session\<lparr>sfContextId := ctxId cx\<rparr>))"
  by (auto simp: recoverContext_def causeOf_def split: prod.splits sum.splits)

lemmas world_eval =
  world_init_def cs_init_def sf_init_def returned_def cs_createCart_def cs_getCart_def
  cs_addItem_def cs_removeItem_def cs_updateItem_def removeAfterRecovery_def
  updateAfterRecovery_def recoverContext_def getSession_def putSession_def syncSessionItems_def
  inputOf_def SalesforceCartClient_def sf_createContext_def sf_addItem_def sf_getCart_def
  sf_removeItem_def sf_updateItem_def getValidContext_def buildCart_def itemsTotal_def
  expireContext_def advanceClock_def CONTEXT_EXPIRY_MS_def randomUUID_def splice1_def
  showNat.simps digit_def Let_def phone_def plan_def

lemma expiredWorld_eq:
  "expiredWorld =
     (\<lparr>sessions = [''sess_0'' \<mapsto>
          \<lparr>sessionId = ''sess_0'', sfContextId = ''ctx_0'',
           items = [\<lparr>productId = ''p1'', name = ''Phone'', price = 100, quantity = 1,
                     itemId = ''item_1''\<rparr>],
           createdAt = 0, lastAccessed = 0\<rparr>],
       sessionSupply = 1\<rparr>,
      \<lparr>contexts = [''ctx_0'' \<mapsto>
          \<lparr>cdContext = \<lparr>ctxId = ''ctx_0'', expiresAt = - 1000\<rparr>,
           ctxItems = [\<lparr>productId = ''p1'', name = ''Phone'', price = 100, quantity = 1,
                        itemId = ''item_1''\<rparr>]\<rparr>],
       itemCounter = 1, uuidSupply = 1, clock = 0\<rparr>)"
  by (simp add: expiredWorld_def world_eval)

subsection \<open>Totals and returned carts\<close>

lemma itemsTotal_inputs: "itemsTotal xs = inputsTotal (map inputOf xs)"
  by (simp add: itemsTotal_def inputsTotal_def foldl_map inputOf_def)







lemma fst_returned:
  "fst (returned x) = Returned cart \<longleftrightarrow> fst x = Inr cart"
  by (auto simp: returned_def split: prod.splits sum.splits)

lemma sessionStep_answers:
  assumes "sessionStep w sid s (Inr cart) w'"
  shows "\<exists>s' cd. sessions (fst w') sid = Some s' \<and>
           contexts (snd w') (sfContextId s') = Some cd \<and> cart = buildCart cd \<and>
           map inputOf (ctxItems cd) = map inputOf (items s') \<and>
           ctxId (cdContext cd) = sfContextId s' \<and>
           (case getValidContext (snd w) (sfContextId s) of
              Inr cd0 \<Rightarrow> sfContextId s' = sfContextId s
            | Inl e \<Rightarrow> sfContextId s' = ctxId (freshContext (snd w)))"
  using assms by (auto simp: sessionStep_def split: option.splits sum.splits)

lemma perform_sessionStep:
  assumes inv: "Inv w" and r: "fst (perform op w) = Returned cart"
  shows "\<exists>sid s. sessionOf op = Some sid \<and> sessions (fst w) sid = Some s \<and>
           sessionStep w sid s (Inr cart) (snd (perform op w))"
proof -
  obtain svc sf where w: "w = (svc, sf)" by (cases w)
  have unknown: "sessions svc sid = None \<Longrightarrow>
      fst (cs_getCart SalesforceCartClient t sid (svc, sf)) \<noteq> Inr cart
    \<and> fst (cs_addItem SalesforceCartClient t sid item (svc, sf)) \<noteq> Inr cart
    \<and> fst (cs_removeItem SalesforceCartClient t sid iid (svc, sf)) \<noteq> Inr cart
    \<and> fst (cs_updateItem SalesforceCartClient t sid iid q (svc, sf)) \<noteq> Inr cart" for sid t item iid q
    using cs_unknown_session[of svc sid SalesforceCartClient t sf item iid q] by simp
  show ?thesis
  proof (cases op)
    case CreateCart
    with r show ?thesis by (simp split: prod.splits sum.splits)
  next
    case (GetCart sid)
    with r unknown[of sid] obtain s where s: "sessions svc sid = Some s"
      by (cases "sessions svc sid") (auto simp: w fst_returned)
    from Inv_mirrors[OF inv, of sid s] s have m: "mirrors sf s" by (simp add: w)
    obtain r' w' where c: "cs_getCart SalesforceCartClient (clock sf) sid (svc, sf) = (r', w')"
      by (cases "cs_getCart SalesforceCartClient (clock sf) sid (svc, sf)")
    from cs_getCart_shape[OF s m c] r c GetCart s show ?thesis by (simp add: w fst_returned)
  next
    case (AddItem sid item)
    with r unknown[of sid] obtain s where s: "sessions svc sid = Some s"
      by (cases "sessions svc sid") (auto simp: w fst_returned)
    from Inv_mirrors[OF inv, of sid s] s have m: "mirrors sf s" by (simp add: w)
    obtain r' w' where c: "cs_addItem SalesforceCartClient (clock sf) sid item (svc, sf) = (r', w')"
      by (cases "cs_addItem SalesforceCartClient (clock sf) sid item (svc, sf)")
    from cs_addItem_shape[OF s m c] r c AddItem s show ?thesis by (simp add: w fst_returned)
  next
    case (RemoveItem sid iid)
    with r unknown[of sid] obtain s where s: "sessions svc sid = Some s"
      by (cases "sessions svc sid") (auto simp: w fst_returned)
    from Inv_mirrors[OF inv, of sid s] s have m: "mirrors sf s" by (simp add: w)
    obtain r' w' where c: "cs_removeItem SalesforceCartClient (clock sf) sid iid (svc, sf) = (r', w')"
      by (cases "cs_removeItem SalesforceCartClient (clock sf) sid iid (svc, sf)")
    from cs_removeItem_shape[OF s m c] r c RemoveItem s show ?thesis by (simp add: w fst_returned)
  next
    case (UpdateItem sid iid q)
    with r unknown[of sid] obtain s where s: "sessions svc sid = Some s"
      by (cases "sessions svc sid") (auto simp: w fst_returned)
    from Inv_mirrors[OF inv, of sid s] s have m: "mirrors sf s" by (simp add: w)
    obtain r' w' where c: "cs_updateItem SalesforceCartClient (clock sf) sid iid q (svc, sf) = (r', w')"
      by (cases "cs_updateItem SalesforceCartClient (clock sf) sid iid q (svc, sf)")
    from cs_updateItem_shape[OF s m c] r c UpdateItem s show ?thesis by (simp add: w fst_returned)
  qed
qed

lemma perform_CreateCart:
  "perform CreateCart w =
     (Created (''sess_'' @ randomUUID (sessionSupply (fst w)))
        \<lparr>cartId = ''cart_'' @ (''sess_'' @ randomUUID (sessionSupply (fst w))),
         cartItems = [], total = Lit 0\<rparr>,
      putSession (''sess_'' @ randomUUID (sessionSupply (fst w)))
        \<lparr>sessionId = ''sess_'' @ randomUUID (sessionSupply (fst w)),
         sfContextId = ctxId (freshContext (snd w)), items = [],
         createdAt = clock (snd w), lastAccessed = clock (snd w)\<rparr>
        ((fst w)\<lparr>sessionSupply := Suc (sessionSupply (fst w))\<rparr>),
      migrated [] (snd w))"
  using cs_createCart_sf[of "clock (snd w)" "fst w" "snd w"] by simp

lemma reachable_run: "reachable (snd (run evs (world_init t)))"
  unfolding reachable_def by blast

lemma reachable_expiredWorld: "reachable expiredWorld"
  unfolding expiredWorld_def by (rule reachable_run)


subsection \<open>Cart identifiers\<close>

lemma throwsExpired_getValidContext:
  "throwsExpired (getValidContext sf cid) \<longleftrightarrow> (\<exists>e. getValidContext sf cid = Inl e)"
  by (auto simp: throwsExpired_def getValidContext_def split: option.splits)

lemma prefix_differs: "''cart_'' @ ''ctx_'' @ a \<noteq> ''cart_'' @ ''sess_'' @ b"
  by simp

lemma perform_cart_id:
  assumes "reachable w" "fst (perform op w) = Returned cart"
  shows "\<exists>sid s s'. sessionOf op = Some sid \<and> sessions (fst w) sid = Some s \<and>
           sessions (fst (snd (perform op w))) sid = Some s' \<and>
           cartId cart = ''cart_'' @ sfContextId s' \<and> take 4 (sfContextId s') = ''ctx_'' \<and>
           cartId cart \<noteq> ''cart_'' @ sid \<and>
           (if throwsExpired (getValidContext (snd w) (sfContextId s))
            then sfContextId s' \<noteq> sfContextId s \<and> cartId cart \<noteq> ''cart_'' @ sfContextId s
            else sfContextId s' = sfContextId s)"
proof -
  have inv: "Inv w" by (rule reachable_Inv[OF assms(1)])
  have inv': "Inv (snd (perform op w))" by (rule Inv_perform[OF inv])
  from perform_sessionStep[OF inv assms(2)]
  obtain sid s where a: "sessionOf op = Some sid" "sessions (fst w) sid = Some s"
    and st: "sessionStep w sid s (Inr cart) (snd (perform op w))" by blast
  from sessionStep_answers[OF st]
  obtain s' cd where b: "sessions (fst (snd (perform op w))) sid = Some s'"
    "cart = buildCart cd" "ctxId (cdContext cd) = sfContextId s'"
    and cs: "case getValidContext (snd w) (sfContextId s) of
              Inr cd0 \<Rightarrow> sfContextId s' = sfContextId s
            | Inl e \<Rightarrow> sfContextId s' = ctxId (freshContext (snd w))" by blast
  from b(2,3) have id: "cartId cart = ''cart_'' @ sfContextId s'" by (simp add: buildCart_def)
  from Inv_ctx[OF inv' b(1)] obtain k where k: "sfContextId s' = ''ctx_'' @ randomUUID k" by blast
  from Inv_sid[OF inv a(2)] obtain j where j: "sid = ''sess_'' @ randomUUID j" by blast
  from Inv_ctx[OF inv a(2)] obtain i where i: "i < uuidSupply (snd w)"
    "sfContextId s = ''ctx_'' @ randomUUID i" by blast
  have ne: "cartId cart \<noteq> ''cart_'' @ sid"
    unfolding id k j by simp
  have rec: "sfContextId s' \<noteq> sfContextId s \<and> cartId cart \<noteq> ''cart_'' @ sfContextId s"
    if "throwsExpired (getValidContext (snd w) (sfContextId s))"
  proof -
    from that cs have "sfContextId s' = ctxId (freshContext (snd w))"
      by (auto simp: throwsExpired_getValidContext)
    with i have "sfContextId s' \<noteq> sfContextId s" by (simp add: fresh_ctxId)
    with id show ?thesis by simp
  qed
  have same: "sfContextId s' = sfContextId s"
    if "\<not> throwsExpired (getValidContext (snd w) (sfContextId s))"
    using that cs by (auto simp: throwsExpired_getValidContext split: sum.splits)
  from a b(1) id k ne rec same show ?thesis by auto
qed

subsection \<open>The search by product id after a recovery\<close>

lemma productId_reissue: "map productId (reissue n xs) = map productId xs"
  by (induction xs arbitrary: n) simp_all

lemma find_in_reissue:
  assumes "find (\<lambda>item. itemId item = iid) xs = Some it"
  shows "find (\<lambda>item. productId item = productId it) (reissue n xs) \<noteq> None"
proof -
  from assms have "it \<in> set xs" by (auto simp: find_Some_iff)
  then have "productId it \<in> set (map productId xs)" by simp
  then have "productId it \<in> set (map productId (reissue n xs))" by (simp only: productId_reissue)
  then show ?thesis by (auto simp: find_None_iff)
qed

lemma removeAfterRecovery_sf:
  assumes "instanceofContextExpiredError error"
  shows "\<not> isRecoveryFailed (fst (removeAfterRecovery SalesforceCartClient sid iid error
            (s\<lparr>sfContextId := ctxId (freshContext sf)\<rparr>) svc (migrated (items s) sf)))"
proof (cases "find (\<lambda>item. itemId item = iid) (items s)")
  case None
  with assms show ?thesis by (cases error) (simp_all add: removeAfterRecovery_def)
next
  case (Some it)
  from find_in_reissue[OF Some, of "itemCounter sf"] obtain new
    where new: "find (\<lambda>item. productId item = productId it) (reissue (itemCounter sf) (items s)) = Some new"
    by blast
  show ?thesis
    by (simp add: removeAfterRecovery_def Some sf_getCart_live[OF migrated_live] buildCart_def new
        sf_removeItem_live[OF migrated_live] split: option.splits)
qed

lemma updateAfterRecovery_sf:
  assumes "instanceofContextExpiredError error"
  shows "\<not> isRecoveryFailed (fst (updateAfterRecovery SalesforceCartClient sid iid q error
            (s\<lparr>sfContextId := ctxId (freshContext sf)\<rparr>) svc (migrated (items s) sf)))"
proof (cases "find (\<lambda>item. itemId item = iid) (items s)")
  case None
  with assms show ?thesis by (cases error) (simp_all add: updateAfterRecovery_def)
next
  case (Some it)
  from find_in_reissue[OF Some, of "itemCounter sf"] obtain new
    where new: "find (\<lambda>item. productId item = productId it) (reissue (itemCounter sf) (items s)) = Some new"
    by blast
  show ?thesis
    by (simp add: updateAfterRecovery_def Some sf_getCart_live[OF migrated_live] buildCart_def new
        sf_updateItem_live[OF migrated_live] split: option.splits)
qed

lemma cs_removeItem_never_recovery_failed:
  "\<not> isRecoveryFailed (fst (cs_removeItem SalesforceCartClient t sid iid (svc, sf)))"
proof (cases "sessions svc sid")
  case None
  then show ?thesis by (simp add: cs_removeItem_def getSession_def)
next
  case (Some s0)
  show ?thesis
  proof (cases rule: getValidContext_cases[of sf "sfContextId s0"])
    case 1
    from removeAfterRecovery_sf[where error = "ContextExpiredError (sfContextId s0)" and sid = sid
        and iid = iid and s = "s0\<lparr>lastAccessed := t\<rparr>" and sf = sf and svc = svc]
    show ?thesis
      by (simp add: cs_removeItem_def getSession_def Some sf_dead[OF 1] recoverContext_sf)
  next
    case (2 cd)
    then show ?thesis
      by (simp add: cs_removeItem_def getSession_def Some sf_removeItem_live split: option.splits)
  qed
qed

lemma cs_updateItem_never_recovery_failed:
  "\<not> isRecoveryFailed (fst (cs_updateItem SalesforceCartClient t sid iid q (svc, sf)))"
proof (cases "sessions svc sid")
  case None
  then show ?thesis by (simp add: cs_updateItem_def getSession_def)
next
  case (Some s0)
  show ?thesis
  proof (cases rule: getValidContext_cases[of sf "sfContextId s0"])
    case 1
    from updateAfterRecovery_sf[where error = "ContextExpiredError (sfContextId s0)" and sid = sid
        and iid = iid and q = q and s = "s0\<lparr>lastAccessed := t\<rparr>" and sf = sf and svc = svc]
    show ?thesis
      by (simp add: cs_updateItem_def getSession_def Some sf_dead[OF 1] recoverContext_sf)
  next
    case (2 cd)
    then show ?thesis
      by (simp add: cs_updateItem_def getSession_def Some sf_updateItem_live split: option.splits)
  qed
qed

subsection \<open>Runs with and without expiries\<close>

lemma cs_getCart_keeps:
  assumes "sessions svc sid = Some s0"
    and "cs_getCart SalesforceCartClient t sid (svc, sf) = (r, w')"
  shows "(\<exists>cart. r = Inr cart) \<and> (\<exists>s'. sessions (fst w') sid = Some s' \<and> items s' = items s0)"
proof (cases rule: getValidContext_cases[of sf "sfContextId s0"])
  case 1
  with assms show ?thesis
    by (auto simp: cs_getCart_def getSession_def sf_dead recoverContext_sf
        sf_getCart_live[OF migrated_live])
next
  case (2 cd)
  with assms show ?thesis
    by (auto simp: cs_getCart_def getSession_def sf_getCart_live)
qed

lemma cs_addItem_appends:
  assumes "sessions svc sid = Some s0" "mirrors sf s0"
    and "cs_addItem SalesforceCartClient t sid item (svc, sf) = (r, w')"
  shows "(\<exists>cart. r = Inr cart) \<and>
         (\<exists>s'. sessions (fst w') sid = Some s' \<and>
               map inputOf (items s') = map inputOf (items s0) @ [item])"
proof (cases rule: getValidContext_cases[of sf "sfContextId s0"])
  case 1
  with assms show ?thesis
    by (auto simp: cs_addItem_def getSession_def sf_dead recoverContext_sf
        sf_addItem_live[OF migrated_live] syncSessionItems_def buildCart_def inputOf_reissue
        inputOf_def)
next
  case (2 cd)
  with assms show ?thesis
    by (auto simp: cs_addItem_def getSession_def sf_addItem_live syncSessionItems_def
        buildCart_def mirrors_def inputOf_def)
qed

lemma carts_putSession:
  assumes "fst w' = putSession sid s' (fst w)"
  shows "carts w' = (fst (carts w), (snd (carts w))(sid \<mapsto> map inputOf (items s')))"
  using assms by (auto simp: carts_def)

lemma carts_unknown:
  "snd (carts w) sid = None \<longleftrightarrow> sessions (fst w) sid = None"
  by (simp add: carts_def)

lemma carts_known:
  "sessions (fst w) sid = Some s \<Longrightarrow> snd (carts w) sid = Some (map inputOf (items s))"
  by (simp add: carts_def)

lemma visible_GetCart:
  assumes inv: "Inv w"
  shows "visibleOf (fst (perform (GetCart sid) w)) =
           Some (case snd (carts w) sid of
                   None \<Rightarrow> VThrown (CartNotFoundError sid)
                 | Some xs \<Rightarrow> VCart xs (inputsTotal xs))
         \<and> carts (snd (perform (GetCart sid) w)) = carts w"
proof -
  obtain svc sf where w: "w = (svc, sf)" by (cases w)
  show ?thesis
  proof (cases "sessions svc sid")
    case None
    with cs_unknown_session[OF None, of SalesforceCartClient "clock sf" sf]
    show ?thesis by (simp add: w returned_def carts_def)
  next
    case (Some s0)
    obtain r w' where c: "cs_getCart SalesforceCartClient (clock sf) sid (svc, sf) = (r, w')"
      by (cases "cs_getCart SalesforceCartClient (clock sf) sid (svc, sf)")
    from Inv_mirrors[OF inv, of sid s0] Some have m: "mirrors sf s0" by (simp add: w)
    from cs_getCart_keeps[OF Some c] obtain cart s' where k: "r = Inr cart"
      "sessions (fst w') sid = Some s'" "items s' = items s0" by blast
    from cs_getCart_shape[OF Some m c] k(1) have st: "sessionStep (svc, sf) sid s0 (Inr cart) w'"
      by simp
    from sessionStep_answers[OF st] k(2) obtain cd where a: "cart = buildCart cd"
      "map inputOf (ctxItems cd) = map inputOf (items s')" by auto
    from st k(2) have p: "fst w' = putSession sid s' svc"
      by (simp add: sessionStep_def)
    have v: "visibleOf (Returned cart) =
               Some (VCart (map inputOf (items s0)) (inputsTotal (map inputOf (items s0))))"
      using a k(3) by (simp add: buildCart_def itemsTotal_inputs)
    have "carts w' = carts (svc, sf)"
      using carts_putSession[of w' sid s' "(svc, sf)"] p k(3) Some
      by (auto simp: carts_def)
    with v c k(1) Some show ?thesis by (simp add: w returned_def carts_def)
  qed
qed

lemma visible_AddItem:
  assumes inv: "Inv w"
  shows "visibleOf (fst (perform (AddItem sid item) w)) =
           Some (case snd (carts w) sid of
                   None \<Rightarrow> VThrown (CartNotFoundError sid)
                 | Some xs \<Rightarrow> VCart (xs @ [item]) (inputsTotal (xs @ [item])))
         \<and> carts (snd (perform (AddItem sid item) w)) =
             (case snd (carts w) sid of
                None \<Rightarrow> carts w
              | Some xs \<Rightarrow> (fst (carts w), (snd (carts w))(sid \<mapsto> xs @ [item])))"
proof -
  obtain svc sf where w: "w = (svc, sf)" by (cases w)
  show ?thesis
  proof (cases "sessions svc sid")
    case None
    with cs_unknown_session[OF None, of SalesforceCartClient "clock sf" sf]
    show ?thesis by (simp add: w returned_def carts_def)
  next
    case (Some s0)
    obtain r w' where c: "cs_addItem SalesforceCartClient (clock sf) sid item (svc, sf) = (r, w')"
      by (cases "cs_addItem SalesforceCartClient (clock sf) sid item (svc, sf)")
    from Inv_mirrors[OF inv, of sid s0] Some have m: "mirrors sf s0" by (simp add: w)
    from cs_addItem_appends[OF Some m c] obtain cart s' where k: "r = Inr cart"
      "sessions (fst w') sid = Some s'" "map inputOf (items s') = map inputOf (items s0) @ [item]"
      by blast
    from cs_addItem_shape[OF Some m c] k(1) have st: "sessionStep (svc, sf) sid s0 (Inr cart) w'"
      by simp
    from sessionStep_answers[OF st] k(2) obtain cd where a: "cart = buildCart cd"
      "map inputOf (ctxItems cd) = map inputOf (items s')" by auto
    from st k(2) have p: "fst w' = putSession sid s' svc"
      by (simp add: sessionStep_def)
    have v: "visibleOf (Returned cart) =
               Some (VCart (map inputOf (items s0) @ [item])
                       (inputsTotal (map inputOf (items s0) @ [item])))"
      using a k(3) by (simp add: buildCart_def itemsTotal_inputs)
    have "carts w' = (fst (carts (svc, sf)),
                      (snd (carts (svc, sf)))(sid \<mapsto> map inputOf (items s0) @ [item]))"
      using carts_putSession[of w' sid s' "(svc, sf)"] p k(3) by simp
    with v c k(1) Some show ?thesis by (simp add: w returned_def carts_def)
  qed
qed

lemma visible_CreateCart:
  "visibleOf (fst (perform CreateCart w)) =
     Some (VCreated (''sess_'' @ randomUUID (fst (carts w))) [] (Lit 0))
   \<and> carts (snd (perform CreateCart w)) =
       (Suc (fst (carts w)), (snd (carts w))(''sess_'' @ randomUUID (fst (carts w)) \<mapsto> []))"
  by (auto simp: perform_CreateCart carts_def simp del: perform.simps)

lemma carts_env [simp]:
  "carts (fst w, expireContext cid (snd w)) = carts w"
  "carts (fst w, advanceClock d (snd w)) = carts w"
  by (simp_all add: carts_def)

lemma plain_perform_sim:
  assumes "Inv w1" "Inv w2" "carts w1 = carts w2" "\<not> usesItemId (Call op)"
  shows "visibleOf (fst (perform op w1)) = visibleOf (fst (perform op w2)) \<and>
         carts (snd (perform op w1)) = carts (snd (perform op w2))"
proof (cases op)
  case CreateCart
  with visible_CreateCart[of w1, unfolded assms(3)] visible_CreateCart[of w2] show ?thesis by simp
next
  case (GetCart sid)
  with visible_GetCart[OF assms(1), of sid, unfolded assms(3)] visible_GetCart[OF assms(2), of sid]
  show ?thesis by simp
next
  case (AddItem sid item)
  with visible_AddItem[OF assms(1), of sid item, unfolded assms(3)]
    visible_AddItem[OF assms(2), of sid item]
  show ?thesis by simp
next
  case (RemoveItem sid iid)
  with assms(4) show ?thesis by simp
next
  case (UpdateItem sid iid q)
  with assms(4) show ?thesis by simp
qed

lemma visibleRun_Cons:
  "visibleRun (e # es) w =
     (case visibleOf (fst (step e w)) of None \<Rightarrow> [] | Some v \<Rightarrow> [v]) @
     visibleRun es (snd (step e w))"
  by (simp add: visibleRun_def fst_run_Cons map_filter_simps del: run.simps split: option.splits)

lemma visibleRun_Nil [simp]: "visibleRun [] w = []"
  by (simp add: visibleRun_def map_filter_simps)

lemma run_sim:
  assumes "Inv w1" "Inv w2" "carts w1 = carts w2" "\<forall>e\<in>set evs. \<not> usesItemId e"
  shows "visibleRun evs w1 = visibleRun (filter isCall evs) w2"
  using assms
proof (induction evs arbitrary: w1 w2)
  case Nil
  then show ?case by simp
next
  case (Cons e evs)
  show ?case
  proof (cases e)
    case (Call op)
    from Cons.prems(4) Call have nu: "\<not> usesItemId (Call op)" by simp
    from plain_perform_sim[OF Cons.prems(1,2,3) nu]
    have v: "visibleOf (fst (perform op w1)) = visibleOf (fst (perform op w2))"
      and c: "carts (snd (perform op w1)) = carts (snd (perform op w2))" by simp_all
    from Cons.prems(4) have rest: "\<forall>e\<in>set evs. \<not> usesItemId e" by simp
    from Cons.IH[OF Inv_perform[OF Cons.prems(1)] Inv_perform[OF Cons.prems(2)] c rest]
    have "visibleRun evs (snd (perform op w1)) = visibleRun (filter isCall evs) (snd (perform op w2))" .
    with v Call show ?thesis by (simp add: visibleRun_Cons del: perform.simps)
  next
    case (ExpireContext cid)
    from Cons.prems(4) have rest: "\<forall>e\<in>set evs. \<not> usesItemId e" by simp
    from Cons.IH[OF Inv_expire[OF Cons.prems(1), of cid] Cons.prems(2) _ rest] Cons.prems(3)
    have "visibleRun evs (fst w1, expireContext cid (snd w1)) = visibleRun (filter isCall evs) w2"
      by simp
    with ExpireContext show ?thesis by (simp add: visibleRun_Cons)
  next
    case (Advance d)
    from Cons.prems(4) have rest: "\<forall>e\<in>set evs. \<not> usesItemId e" by simp
    from Cons.IH[OF Inv_advance[OF Cons.prems(1), of d] Cons.prems(2) _ rest] Cons.prems(3)
    have "visibleRun evs (fst w1, advanceClock d (snd w1)) = visibleRun (filter isCall evs) w2"
      by simp
    with Advance show ?thesis by (simp add: visibleRun_Cons)
  qed
qed

subsection \<open>The log of provider calls\<close>

lemma traced_addItem:
  "addItem (traced c) cid item (p, tr) =
     (fst (addItem c cid item p), snd (addItem c cid item p), tr @ [AddItemCall cid item])"
  by (simp add: traced_def logged_def split: prod.splits)

lemma traced_createContext:
  "createContext (traced c) (p, tr) =
     (fst (createContext c p), snd (createContext c p), tr @ [CreateContextCall])"
  by (simp add: traced_def logged_def split: prod.splits)

lemma replay_traced:
  "replay (traced c) cid xs (p, tr) = (Inr u, p', tr') \<Longrightarrow>
   tr' = tr @ map (\<lambda>item. AddItemCall cid (inputOf item)) xs \<and> replay c cid xs p = (Inr u, p')"
proof (induction xs arbitrary: p tr)
  case Nil
  then show ?case by simp
next
  case (Cons x xs)
  obtain r p1 where a: "addItem c cid (inputOf x) p = (r, p1)"
    by (cases "addItem c cid (inputOf x) p")
  with Cons.prems obtain cart where r: "r = Inr cart"
    by (cases r) (simp_all add: traced_addItem)
  from Cons.prems a r
  have "replay (traced c) cid xs (p1, tr @ [AddItemCall cid (inputOf x)]) = (Inr u, p', tr')"
    by (simp add: traced_addItem)
  from Cons.IH[OF this] a r show ?case by simp
qed

lemma recoverContext_traced:
  assumes "recoverContext (traced c) session (p, tr) = (Inr u, session', p', tr')"
  shows "tr' = tr @ CreateContextCall #
                 map (\<lambda>item. AddItemCall (sfContextId session') (inputOf item)) (items session)"
proof -
  obtain r p1 where a: "createContext c p = (r, p1)" by (cases "createContext c p")
  with assms obtain cx where r: "r = Inr cx"
    by (cases r) (simp_all add: recoverContext_def traced_createContext)
  obtain r2 p2 tr2 where b:
    "replay (traced c) (ctxId cx) (items session) (p1, tr @ [CreateContextCall]) = (r2, p2, tr2)"
    by (cases "replay (traced c) (ctxId cx) (items session) (p1, tr @ [CreateContextCall])") auto
  with assms a r obtain u2 where r2: "r2 = Inr u2"
    by (cases r2) (simp_all add: recoverContext_def traced_createContext)
  from assms a r b r2 have c: "session' = session\<lparr>sfContextId := ctxId cx\<rparr>" "tr' = tr2"
    by (simp_all add: recoverContext_def traced_createContext)
  from replay_traced[OF b[unfolded r2]] c show ?thesis by simp
qed

lemma createCalls_simps [simp]:
  "createCalls [] = 0"
  "createCalls (k # tr) = (if isCreate k then Suc (createCalls tr) else createCalls tr)"
  "createCalls (tr @ tr') = createCalls tr + createCalls tr'"
  by (simp_all add: createCalls_def)

lemma traced_getCart:
  "getCart (traced c) cid (p, tr) =
     (fst (getCart c cid p), snd (getCart c cid p), tr @ [GetCartCall cid])"
  by (simp add: traced_def logged_def split: prod.splits)

lemma traced_removeItem:
  "removeItem (traced c) cid iid (p, tr) =
     (fst (removeItem c cid iid p), snd (removeItem c cid iid p), tr @ [RemoveItemCall cid iid])"
  by (simp add: traced_def logged_def split: prod.splits)

lemma traced_updateItem:
  "updateItem (traced c) cid iid q (p, tr) =
     (fst (updateItem c cid iid q p), snd (updateItem c cid iid q p),
      tr @ [UpdateItemCall cid iid q])"
  by (simp add: traced_def logged_def split: prod.splits)

lemma replay_log:
  "\<exists>more. snd (snd (replay (traced c) cid xs (p, tr))) = tr @ more \<and> createCalls more = 0"
proof (induction xs arbitrary: p tr)
  case Nil
  show ?case by simp
next
  case (Cons x xs)
  obtain r p1 where a: "addItem c cid (inputOf x) p = (r, p1)"
    by (cases "addItem c cid (inputOf x) p")
  show ?case
  proof (cases r)
    case (Inl e)
    with a show ?thesis by (simp add: traced_addItem)
  next
    case (Inr cart)
    from Cons.IH[of p1 "tr @ [AddItemCall cid (inputOf x)]"] obtain more
      where "snd (snd (replay (traced c) cid xs (p1, tr @ [AddItemCall cid (inputOf x)]))) =
               (tr @ [AddItemCall cid (inputOf x)]) @ more" "createCalls more = 0" by blast
    with a Inr show ?thesis by (simp add: traced_addItem)
  qed
qed

lemma recover_log:
  "\<exists>more. snd (snd (snd (recoverContext (traced c) s (p, tr)))) = tr @ CreateContextCall # more \<and>
          createCalls more = 0"
proof -
  obtain r p1 where a: "createContext c p = (r, p1)" by (cases "createContext c p")
  show ?thesis
  proof (cases r)
    case (Inl e)
    with a show ?thesis by (simp add: recoverContext_def traced_createContext)
  next
    case (Inr cx)
    from replay_log[of c "ctxId cx" "items s" p1 "tr @ [CreateContextCall]"] obtain more
      where m: "snd (snd (replay (traced c) (ctxId cx) (items s) (p1, tr @ [CreateContextCall]))) =
               (tr @ [CreateContextCall]) @ more" "createCalls more = 0" by blast
    with a Inr show ?thesis
      by (auto simp: recoverContext_def traced_createContext split: prod.splits sum.splits)
  qed
qed


lemma recover_log_cases:
  obtains rr s1 p2 more where
    "recoverContext (traced c) s (p, tr) = (rr, s1, p2, tr @ CreateContextCall # more)"
    "createCalls more = 0"
proof -
  obtain rr s1 p2 tr2 where a: "recoverContext (traced c) s (p, tr) = (rr, s1, p2, tr2)"
    by (cases "recoverContext (traced c) s (p, tr)") auto
  from recover_log[of c s p tr] a obtain more
    where "tr2 = tr @ CreateContextCall # more" "createCalls more = 0" by auto
  with a that show ?thesis by blast
qed

lemma cs_getCart_log:
  assumes "sessions svc sid = Some s0"
  shows "\<exists>rest. snd (snd (snd (cs_getCart (traced c) t sid (svc, p, tr)))) =
                  tr @ GetCartCall (sfContextId s0) # rest \<and>
                oneRecovery (fst (getCart c (sfContextId s0) p)) rest"
proof -
  obtain r p1 where a: "getCart c (sfContextId s0) p = (r, p1)"
    by (cases "getCart c (sfContextId s0) p")
  show ?thesis
  proof (cases "throwsExpired r")
    case False
    with a assms show ?thesis
      by (cases r) (simp_all add: cs_getCart_def getSession_def traced_getCart oneRecovery_def
          throwsExpired_def)
  next
    case True
    then obtain error where e: "r = Inl error" "instanceofContextExpiredError error"
      by (cases r) (simp_all add: throwsExpired_def)
    obtain rr s1 p2 more where rc:
      "recoverContext (traced c) (s0\<lparr>lastAccessed := t\<rparr>)
         (p1, tr @ [GetCartCall (sfContextId s0)]) =
         (rr, s1, p2, (tr @ [GetCartCall (sfContextId s0)]) @ CreateContextCall # more)"
      "createCalls more = 0"
      by (rule recover_log_cases)
    show ?thesis
      using a assms e rc True
      by (cases rr)
        (simp_all add: cs_getCart_def getSession_def traced_getCart oneRecovery_def)
  qed
qed

lemma cs_addItem_log:
  assumes "sessions svc sid = Some s0"
  shows "\<exists>rest. snd (snd (snd (cs_addItem (traced c) t sid item (svc, p, tr)))) =
                  tr @ AddItemCall (sfContextId s0) item # rest \<and>
                oneRecovery (fst (addItem c (sfContextId s0) item p)) rest"
proof -
  obtain r p1 where a: "addItem c (sfContextId s0) item p = (r, p1)"
    by (cases "addItem c (sfContextId s0) item p")
  show ?thesis
  proof (cases "throwsExpired r")
    case False
    with a assms show ?thesis
      by (cases r) (simp_all add: cs_addItem_def getSession_def traced_addItem oneRecovery_def
          throwsExpired_def)
  next
    case True
    then obtain error where e: "r = Inl error" "instanceofContextExpiredError error"
      by (cases r) (simp_all add: throwsExpired_def)
    obtain rr s1 p2 more where rc:
      "recoverContext (traced c) (s0\<lparr>lastAccessed := t\<rparr>)
         (p1, tr @ [AddItemCall (sfContextId s0) item]) =
         (rr, s1, p2, (tr @ [AddItemCall (sfContextId s0) item]) @ CreateContextCall # more)"
      "createCalls more = 0"
      by (rule recover_log_cases)
    show ?thesis
      using a assms e rc True
      by (cases rr)
        (auto simp: cs_addItem_def getSession_def traced_addItem oneRecovery_def
          split: prod.splits sum.splits)
  qed
qed

lemma removeAfterRecovery_log:
  "\<exists>more. snd (snd (snd (removeAfterRecovery (traced c) sid iid error s svc (p, tr)))) = tr @ more \<and>
          createCalls more = 0"
  by (auto simp: removeAfterRecovery_def traced_getCart traced_removeItem
      split: option.splits prod.splits sum.splits)

lemma updateAfterRecovery_log:
  "\<exists>more. snd (snd (snd (updateAfterRecovery (traced c) sid iid q error s svc (p, tr)))) = tr @ more \<and>
          createCalls more = 0"
  by (auto simp: updateAfterRecovery_def traced_getCart traced_updateItem
      split: option.splits prod.splits sum.splits)

lemma cs_removeItem_log:
  assumes "sessions svc sid = Some s0"
  shows "\<exists>rest. snd (snd (snd (cs_removeItem (traced c) t sid iid (svc, p, tr)))) =
                  tr @ RemoveItemCall (sfContextId s0) iid # rest \<and>
                oneRecovery (fst (removeItem c (sfContextId s0) iid p)) rest"
proof -
  obtain r p1 where a: "removeItem c (sfContextId s0) iid p = (r, p1)"
    by (cases "removeItem c (sfContextId s0) iid p")
  show ?thesis
  proof (cases "throwsExpired r")
    case False
    with a assms show ?thesis
      by (cases r) (simp_all add: cs_removeItem_def getSession_def traced_removeItem oneRecovery_def
          throwsExpired_def)
  next
    case True
    then obtain error where e: "r = Inl error" "instanceofContextExpiredError error"
      by (cases r) (simp_all add: throwsExpired_def)
    obtain rr s1 p2 more where rc:
      "recoverContext (traced c) (s0\<lparr>lastAccessed := t\<rparr>)
         (p1, tr @ [RemoveItemCall (sfContextId s0) iid]) =
         (rr, s1, p2, (tr @ [RemoveItemCall (sfContextId s0) iid]) @ CreateContextCall # more)"
      "createCalls more = 0"
      by (rule recover_log_cases)
    from removeAfterRecovery_log[of c sid iid error s1 svc p2
        "(tr @ [RemoveItemCall (sfContextId s0) iid]) @ CreateContextCall # more"]
    obtain more2 where m2:
      "snd (snd (snd (removeAfterRecovery (traced c) sid iid error s1 svc
          (p2, (tr @ [RemoveItemCall (sfContextId s0) iid]) @ CreateContextCall # more)))) =
        ((tr @ [RemoveItemCall (sfContextId s0) iid]) @ CreateContextCall # more) @ more2"
      "createCalls more2 = 0" by blast
    show ?thesis
      using a assms e rc True m2
      by (cases rr)
        (simp_all add: cs_removeItem_def getSession_def traced_removeItem oneRecovery_def)
  qed
qed

lemma cs_updateItem_log:
  assumes "sessions svc sid = Some s0"
  shows "\<exists>rest. snd (snd (snd (cs_updateItem (traced c) t sid iid q (svc, p, tr)))) =
                  tr @ UpdateItemCall (sfContextId s0) iid q # rest \<and>
                oneRecovery (fst (updateItem c (sfContextId s0) iid q p)) rest"
proof -
  obtain r p1 where a: "updateItem c (sfContextId s0) iid q p = (r, p1)"
    by (cases "updateItem c (sfContextId s0) iid q p")
  show ?thesis
  proof (cases "throwsExpired r")
    case False
    with a assms show ?thesis
      by (cases r) (simp_all add: cs_updateItem_def getSession_def traced_updateItem oneRecovery_def
          throwsExpired_def)
  next
    case True
    then obtain error where e: "r = Inl error" "instanceofContextExpiredError error"
      by (cases r) (simp_all add: throwsExpired_def)
    obtain rr s1 p2 more where rc:
      "recoverContext (traced c) (s0\<lparr>lastAccessed := t\<rparr>)
         (p1, tr @ [UpdateItemCall (sfContextId s0) iid q]) =
         (rr, s1, p2, (tr @ [UpdateItemCall (sfContextId s0) iid q]) @ CreateContextCall # more)"
      "createCalls more = 0"
      by (rule recover_log_cases)
    from updateAfterRecovery_log[of c sid iid q error s1 svc p2
        "(tr @ [UpdateItemCall (sfContextId s0) iid q]) @ CreateContextCall # more"]
    obtain more2 where m2:
      "snd (snd (snd (updateAfterRecovery (traced c) sid iid q error s1 svc
          (p2, (tr @ [UpdateItemCall (sfContextId s0) iid q]) @ CreateContextCall # more)))) =
        ((tr @ [UpdateItemCall (sfContextId s0) iid q]) @ CreateContextCall # more) @ more2"
      "createCalls more2 = 0" by blast
    show ?thesis
      using a assms e rc True m2
      by (cases rr)
        (simp_all add: cs_updateItem_def getSession_def traced_updateItem oneRecovery_def)
  qed
qed


lemma recovery_error_not_expired:
  assumes "recoverContext c s p = (Inl x, s1, p2)"
  shows "\<not> instanceofContextExpiredError x"
  using assms recoverContext_cases[where c = c and session = s and p = p] by auto

lemma cs_getCart_expired_from_retry:
  assumes "sessions svc sid = Some s0" "cs_getCart c t sid (svc, p) = (Inl e, w')"
    "instanceofContextExpiredError e"
  shows "\<exists>error p1 s1 p2 p3.
           getCart c (sfContextId s0) p = (Inl error, p1) \<and> instanceofContextExpiredError error \<and>
           recoverContext c (s0\<lparr>lastAccessed := t\<rparr>) p1 = (Inr (), s1, p2) \<and>
           getCart c (sfContextId s1) p2 = (Inl e, p3)"
proof -
  obtain r p1 where a: "getCart c (sfContextId s0) p = (r, p1)"
    by (cases "getCart c (sfContextId s0) p")
  obtain rr s1 p2 where b: "recoverContext c (s0\<lparr>lastAccessed := t\<rparr>) p1 = (rr, s1, p2)"
    by (cases "recoverContext c (s0\<lparr>lastAccessed := t\<rparr>) p1") auto
  obtain r3 p3 where d: "getCart c (sfContextId s1) p2 = (r3, p3)"
    by (cases "getCart c (sfContextId s1) p2")
  from assms a obtain error where r: "r = Inl error"
    by (cases r) (simp_all add: cs_getCart_def getSession_def)
  from assms a r have ex: "instanceofContextExpiredError error"
    by (cases "instanceofContextExpiredError error")
      (simp_all add: cs_getCart_def getSession_def)
  from assms a r ex b recovery_error_not_expired[of c "s0\<lparr>lastAccessed := t\<rparr>" p1 _ s1 p2]
  have rr: "rr = Inr ()"
    by (cases rr) (auto simp: cs_getCart_def getSession_def)
  from assms a r ex b rr d have "r3 = Inl e"
    by (simp add: cs_getCart_def getSession_def)
  with a r ex b rr d show ?thesis by simp
qed

lemma cs_addItem_expired_from_retry:
  assumes "sessions svc sid = Some s0" "cs_addItem c t sid item (svc, p) = (Inl e, w')"
    "instanceofContextExpiredError e"
  shows "\<exists>error p1 s1 p2 p3.
           addItem c (sfContextId s0) item p = (Inl error, p1) \<and>
           instanceofContextExpiredError error \<and>
           recoverContext c (s0\<lparr>lastAccessed := t\<rparr>) p1 = (Inr (), s1, p2) \<and>
           addItem c (sfContextId s1) item p2 = (Inl e, p3)"
proof -
  obtain r p1 where a: "addItem c (sfContextId s0) item p = (r, p1)"
    by (cases "addItem c (sfContextId s0) item p")
  obtain rr s1 p2 where b: "recoverContext c (s0\<lparr>lastAccessed := t\<rparr>) p1 = (rr, s1, p2)"
    by (cases "recoverContext c (s0\<lparr>lastAccessed := t\<rparr>) p1") auto
  obtain r3 p3 where d: "addItem c (sfContextId s1) item p2 = (r3, p3)"
    by (cases "addItem c (sfContextId s1) item p2")
  from assms a obtain error where r: "r = Inl error"
    by (cases r) (simp_all add: cs_addItem_def getSession_def)
  from assms a r have ex: "instanceofContextExpiredError error"
    by (cases "instanceofContextExpiredError error")
      (simp_all add: cs_addItem_def getSession_def)
  from assms a r ex b recovery_error_not_expired[of c "s0\<lparr>lastAccessed := t\<rparr>" p1 _ s1 p2]
  have rr: "rr = Inr ()"
    by (cases rr) (auto simp: cs_addItem_def getSession_def)
  from assms a r ex b rr d have "r3 = Inl e"
    by (cases r3) (simp_all add: cs_addItem_def getSession_def)
  with a r ex b rr d show ?thesis by simp
qed

subsection \<open>The remapping by product id\<close>

lemma find_findIndex:
  "find P xs = (case findIndex P xs of None \<Rightarrow> None | Some k \<Rightarrow> Some (xs ! k))"
  by (induction xs) (auto split: option.splits)

lemma findIndex_Some:
  "findIndex P xs = Some k \<Longrightarrow> k < length xs \<and> P (xs ! k)"
  by (induction xs arbitrary: k) (auto split: if_splits)

lemma findIndex_productId_reissue:
  "findIndex (\<lambda>i. productId i = pid) (reissue n xs) = findIndex (\<lambda>i. productId i = pid) xs"
  by (induction xs arbitrary: n) simp_all

lemma itemId_reissue:
  "k < length xs \<Longrightarrow> itemId (reissue n xs ! k) = ''item_'' @ showNat (Suc (n + k))"
proof (induction xs arbitrary: n k)
  case Nil
  then show ?case by simp
next
  case (Cons x xs)
  then show ?case by (cases k) simp_all
qed

lemma findIndex_itemId_reissue:
  "k < length xs \<Longrightarrow>
   findIndex (\<lambda>i. itemId i = ''item_'' @ showNat (Suc (n + k))) (reissue n xs) = Some k"
proof (induction xs arbitrary: n k)
  case Nil
  then show ?case by simp
next
  case (Cons x xs)
  show ?case
  proof (cases k)
    case 0
    then show ?thesis by simp
  next
    case (Suc j)
    with Cons.prems have j: "j < length xs" by simp
    have ne: "showNat (Suc n) \<noteq> showNat (Suc (n + k))"
      using Suc showNat_inj[of "Suc n" "Suc (n + k)"] by auto
    from Cons.IH[OF j, of "Suc n"] Suc ne show ?thesis by simp
  qed
qed

lemma inputOf_splice1: "map inputOf (splice1 k xs) = splice1 k (map inputOf xs)"
  by (simp add: splice1_def take_map drop_map)

lemma remap_removes_first_match:
  assumes dead: "getValidContext sf (sfContextId s0) = Inl e"
    and s0: "sessions svc sid = Some s0"
    and it: "find (\<lambda>i. itemId i = iid) (items s0) = Some it"
    and k: "findIndex (\<lambda>i. productId i = productId it) (items s0) = Some k"
  shows "\<exists>cart. fst (cs_removeItem SalesforceCartClient t sid iid (svc, sf)) = Inr cart \<and>
           map inputOf (cartItems cart) = splice1 k (map inputOf (items s0)) \<and>
           total cart = itemsTotal (cartItems cart)"
proof -
  let ?s = "s0\<lparr>lastAccessed := t\<rparr>"
  let ?new = "reissue (itemCounter sf) (items s0)"
  from findIndex_Some[OF k] have kl: "k < length (items s0)" by simp
  have f: "find (\<lambda>i. productId i = productId it) ?new = Some (?new ! k)"
    by (simp add: find_findIndex findIndex_productId_reissue k)
  have g: "findIndex (\<lambda>i. itemId i = itemId (?new ! k)) ?new = Some k"
    by (simp only: itemId_reissue[OF kl] findIndex_itemId_reissue[OF kl])
  from dead have ex: "instanceofContextExpiredError e"
    by (auto simp: getValidContext_def split: option.splits if_splits)
  show ?thesis
    by (simp add: cs_removeItem_def getSession_def s0 sf_dead[OF dead] ex recoverContext_sf
        removeAfterRecovery_def it sf_getCart_live[OF migrated_live] buildCart_def f
        sf_removeItem_live[OF migrated_live] g inputOf_splice1 inputOf_reissue)
qed


lemma inputOf_quantity:
  "k < length xs \<Longrightarrow>
   map inputOf (xs[k := (xs ! k)\<lparr>quantity := q\<rparr>]) =
     (map inputOf xs)[k := (map inputOf xs ! k)\<lparr>quantity := q\<rparr>]"
  by (simp add: map_update inputOf_def)

lemma remap_updates_first_match:
  assumes dead: "getValidContext sf (sfContextId s0) = Inl e"
    and s0: "sessions svc sid = Some s0"
    and it: "find (\<lambda>i. itemId i = iid) (items s0) = Some it"
    and k: "findIndex (\<lambda>i. productId i = productId it) (items s0) = Some k"
  shows "\<exists>cart. fst (cs_updateItem SalesforceCartClient t sid iid q (svc, sf)) = Inr cart \<and>
           map inputOf (cartItems cart) =
             (map inputOf (items s0))[k := (map inputOf (items s0) ! k)\<lparr>quantity := q\<rparr>] \<and>
           total cart = itemsTotal (cartItems cart)"
proof -
  let ?new = "reissue (itemCounter sf) (items s0)"
  from findIndex_Some[OF k] have kl: "k < length (items s0)" by simp
  have f: "find (\<lambda>i. productId i = productId it) ?new = Some (?new ! k)"
    by (simp add: find_findIndex findIndex_productId_reissue k)
  have g: "findIndex (\<lambda>i. itemId i = itemId (?new ! k)) ?new = Some k"
    by (simp only: itemId_reissue[OF kl] findIndex_itemId_reissue[OF kl])
  from dead have ex: "instanceofContextExpiredError e"
    by (auto simp: getValidContext_def split: option.splits if_splits)
  have h: "map inputOf (?new[k := (?new ! k)\<lparr>quantity := q\<rparr>]) =
             (map inputOf (items s0))[k := (map inputOf (items s0) ! k)\<lparr>quantity := q\<rparr>]"
    using inputOf_quantity[of k ?new q] kl by (simp add: inputOf_reissue)
  show ?thesis
    by (simp add: cs_updateItem_def getSession_def s0 sf_dead[OF dead] ex recoverContext_sf
        updateAfterRecovery_def it sf_getCart_live[OF migrated_live] buildCart_def f
        sf_updateItem_live[OF migrated_live] g h)
qed

lemma findIndex_Some_iff:
  "findIndex P xs = Some k \<longleftrightarrow> k < length xs \<and> P (xs ! k) \<and> (\<forall>j<k. \<not> P (xs ! j))"
proof (induction xs arbitrary: k)
  case Nil
  show ?case by simp
next
  case (Cons x xs)
  show ?case
  proof (cases "P x")
    case True
    then show ?thesis by (cases k) auto
  next
    case False
    show ?thesis
    proof (cases k)
      case 0
      with False show ?thesis by simp
    next
      case (Suc m)
      have "(\<forall>j<Suc m. \<not> P ((x # xs) ! j)) \<longleftrightarrow> (\<forall>j<m. \<not> P (xs ! j))"
        using False by (auto simp: less_Suc_eq_0_disj)
      with False Suc Cons.IH[of m] show ?thesis by auto
    qed
  qed
qed

lemma findIndex_distinct_productId:
  assumes d: "distinct (map productId xs)" and k: "findIndex (\<lambda>i. itemId i = iid) xs = Some k"
  shows "findIndex (\<lambda>i. productId i = productId (xs ! k)) xs = Some k"
proof -
  from k have kl: "k < length xs" by (simp add: findIndex_Some_iff)
  have "\<not> productId (xs ! j) = productId (xs ! k)" if "j < k" for j
  proof
    assume e: "productId (xs ! j) = productId (xs ! k)"
    from that kl have jl: "j < length xs" by simp
    have "(map productId xs ! j = map productId xs ! k) = (j = k)"
      using d jl kl by (intro nth_eq_iff_index_eq) simp_all
    with e jl kl have "j = k" by simp
    with that show False by simp
  qed
  with kl show ?thesis by (simp add: findIndex_Some_iff)
qed

lemma remove_referenced_item:
  assumes dead: "getValidContext sf (sfContextId s0) = Inl e0"
    and s0: "sessions svc sid = Some s0"
    and d: "distinct (map productId (items s0))"
    and k: "findIndex (\<lambda>i. itemId i = iid) (items s0) = Some k"
  shows "\<exists>cart. fst (cs_removeItem SalesforceCartClient t sid iid (svc, sf)) = Inr cart \<and>
           visibleOf (Returned cart) =
             Some (VCart (splice1 k (map inputOf (items s0)))
                         (inputsTotal (splice1 k (map inputOf (items s0)))))"
proof -
  have it: "find (\<lambda>i. itemId i = iid) (items s0) = Some (items s0 ! k)"
    by (simp add: find_findIndex k)
  from remap_removes_first_match[OF dead s0 it findIndex_distinct_productId[OF d k], of t]
  obtain cart where c: "fst (cs_removeItem SalesforceCartClient t sid iid (svc, sf)) = Inr cart"
    "map inputOf (cartItems cart) = splice1 k (map inputOf (items s0))"
    "total cart = itemsTotal (cartItems cart)" by blast
  from c(2,3) have "visibleOf (Returned cart) =
             Some (VCart (splice1 k (map inputOf (items s0)))
                         (inputsTotal (splice1 k (map inputOf (items s0)))))"
    by (simp add: itemsTotal_inputs)
  with c(1) show ?thesis by blast
qed

lemma update_referenced_item:
  assumes dead: "getValidContext sf (sfContextId s0) = Inl e0"
    and s0: "sessions svc sid = Some s0"
    and d: "distinct (map productId (items s0))"
    and k: "findIndex (\<lambda>i. itemId i = iid) (items s0) = Some k"
  shows "\<exists>cart. fst (cs_updateItem SalesforceCartClient t sid iid q (svc, sf)) = Inr cart \<and>
           visibleOf (Returned cart) =
             Some (VCart ((map inputOf (items s0))[k := (map inputOf (items s0) ! k)\<lparr>quantity := q\<rparr>])
                    (inputsTotal
                      ((map inputOf (items s0))[k := (map inputOf (items s0) ! k)\<lparr>quantity := q\<rparr>])))"
proof -
  have it: "find (\<lambda>i. itemId i = iid) (items s0) = Some (items s0 ! k)"
    by (simp add: find_findIndex k)
  from remap_updates_first_match[OF dead s0 it findIndex_distinct_productId[OF d k], of t q]
  obtain cart where c: "fst (cs_updateItem SalesforceCartClient t sid iid q (svc, sf)) = Inr cart"
    "map inputOf (cartItems cart) =
       (map inputOf (items s0))[k := (map inputOf (items s0) ! k)\<lparr>quantity := q\<rparr>]"
    "total cart = itemsTotal (cartItems cart)" by blast
  from c(2,3) have "visibleOf (Returned cart) =
             Some (VCart ((map inputOf (items s0))[k := (map inputOf (items s0) ! k)\<lparr>quantity := q\<rparr>])
                    (inputsTotal
                      ((map inputOf (items s0))[k := (map inputOf (items s0) ! k)\<lparr>quantity := q\<rparr>])))"
    by (simp add: itemsTotal_inputs)
  with c(1) show ?thesis by blast
qed

subsection \<open>The replay, call by call\<close>

lemma replay_allAdded: "replay c cid xs p = (Inr u, p') \<longleftrightarrow> allAdded c cid xs p p'"
  by (induction xs arbitrary: p) (auto split: prod.splits sum.splits)

lemma replay_throws:
  "replay c cid xs p = (Inl e, p') \<longleftrightarrow>
     (\<exists>ys item zs p2. xs = ys @ item # zs \<and> allAdded c cid ys p p2 \<and>
        addItem c cid (inputOf item) p2 = (Inl e, p'))"
proof (induction xs arbitrary: p)
  case Nil
  then show ?case by simp
next
  case (Cons x xs)
  obtain r p1 where a: "addItem c cid (inputOf x) p = (r, p1)"
    by (cases "addItem c cid (inputOf x) p")
  show ?case
  proof (cases r)
    case (Inl e1)
    have "(\<exists>ys item zs p2. x # xs = ys @ item # zs \<and> allAdded c cid ys p p2 \<and>
        addItem c cid (inputOf item) p2 = (Inl e, p')) \<longleftrightarrow> (e1 = e \<and> p1 = p')"
    proof
      assume "\<exists>ys item zs p2. x # xs = ys @ item # zs \<and> allAdded c cid ys p p2 \<and>
        addItem c cid (inputOf item) p2 = (Inl e, p')"
      then obtain ys item zs p2 where h: "x # xs = ys @ item # zs" "allAdded c cid ys p p2"
        "addItem c cid (inputOf item) p2 = (Inl e, p')" by blast
      show "e1 = e \<and> p1 = p'"
      proof (cases ys)
        case Nil
        with h a Inl show ?thesis by simp
      next
        case (Cons y ys')
        with h a Inl show ?thesis by simp
      qed
    next
      assume "e1 = e \<and> p1 = p'"
      with a Inl have "x # xs = [] @ x # xs \<and> allAdded c cid [] p p \<and>
        addItem c cid (inputOf x) p = (Inl e, p')" by simp
      then show "\<exists>ys item zs p2. x # xs = ys @ item # zs \<and> allAdded c cid ys p p2 \<and>
        addItem c cid (inputOf item) p2 = (Inl e, p')" by blast
    qed
    with a Inl show ?thesis by auto
  next
    case (Inr cart)
    have "(\<exists>ys item zs p2. x # xs = ys @ item # zs \<and> allAdded c cid ys p p2 \<and>
        addItem c cid (inputOf item) p2 = (Inl e, p')) \<longleftrightarrow>
          (\<exists>ys item zs p2. xs = ys @ item # zs \<and> allAdded c cid ys p1 p2 \<and>
        addItem c cid (inputOf item) p2 = (Inl e, p'))"
    proof
      assume "\<exists>ys item zs p2. x # xs = ys @ item # zs \<and> allAdded c cid ys p p2 \<and>
        addItem c cid (inputOf item) p2 = (Inl e, p')"
      then obtain ys item zs p2 where h: "x # xs = ys @ item # zs" "allAdded c cid ys p p2"
        "addItem c cid (inputOf item) p2 = (Inl e, p')" by blast
      show "\<exists>ys item zs p2. xs = ys @ item # zs \<and> allAdded c cid ys p1 p2 \<and>
        addItem c cid (inputOf item) p2 = (Inl e, p')"
      proof (cases ys)
        case Nil
        with h a Inr show ?thesis by simp
      next
        case (Cons y ys')
        with h a Inr have "xs = ys' @ item # zs \<and> allAdded c cid ys' p1 p2 \<and>
          addItem c cid (inputOf item) p2 = (Inl e, p')" by simp
        then show ?thesis by blast
      qed
    next
      assume "\<exists>ys item zs p2. xs = ys @ item # zs \<and> allAdded c cid ys p1 p2 \<and>
        addItem c cid (inputOf item) p2 = (Inl e, p')"
      then obtain ys item zs p2 where h: "xs = ys @ item # zs" "allAdded c cid ys p1 p2"
        "addItem c cid (inputOf item) p2 = (Inl e, p')" by blast
      with a Inr have "x # xs = (x # ys) @ item # zs \<and> allAdded c cid (x # ys) p p2 \<and>
        addItem c cid (inputOf item) p2 = (Inl e, p')" by simp
      then show "\<exists>ys item zs p2. x # xs = ys @ item # zs \<and> allAdded c cid ys p p2 \<and>
        addItem c cid (inputOf item) p2 = (Inl e, p')" by blast
    qed
    with a Inr Cons.IH[of p1] show ?thesis by simp
  qed
qed

lemma recoverContext_steps:
  "(case recoverContext c session p of
      (Inl e, session', p') \<Rightarrow>
        session' = session \<and>
        (\<exists>thrown. e = ContextRecoveryFailedError (sessionId session) (causeOf thrown) \<and>
           (createContext c p = (Inl thrown, p') \<or>
            (\<exists>cx p1 ys item zs p2. createContext c p = (Inr cx, p1) \<and>
               items session = ys @ item # zs \<and> allAdded c (ctxId cx) ys p1 p2 \<and>
               addItem c (ctxId cx) (inputOf item) p2 = (Inl thrown, p'))))
    | (Inr u, session', p') \<Rightarrow>
        (\<exists>cx p1. createContext c p = (Inr cx, p1) \<and>
           allAdded c (ctxId cx) (items session) p1 p' \<and>
           session' = session\<lparr>sfContextId := ctxId cx\<rparr>))"
  using recoverContext_cases[where c = c and session = session and p = p]
  by (simp add: replay_throws replay_allAdded split: prod.splits sum.splits)

lemma recoverContext_created_throws:
  assumes "createContext c p = (Inl thrown, p1)"
  shows "recoverContext c session p =
           (Inl (ContextRecoveryFailedError (sessionId session) (causeOf thrown)), session, p1)"
  using assms by (simp add: recoverContext_def causeOf_def)

lemma recoverContext_replay_throws:
  assumes "createContext c p = (Inr cx, p1)" "items session = ys @ item # zs"
    "allAdded c (ctxId cx) ys p1 p2" "addItem c (ctxId cx) (inputOf item) p2 = (Inl thrown, p3)"
  shows "recoverContext c session p =
           (Inl (ContextRecoveryFailedError (sessionId session) (causeOf thrown)), session, p3)"
proof -
  from assms(2,3,4) have "replay c (ctxId cx) (items session) p1 = (Inl thrown, p3)"
    unfolding replay_throws by blast
  with assms(1) show ?thesis by (simp add: recoverContext_def causeOf_def)
qed

lemma recoverContext_rebinds:
  assumes "createContext c p = (Inr cx, p1)" "allAdded c (ctxId cx) (items session) p1 p2"
  shows "recoverContext c session p = (Inr (), session\<lparr>sfContextId := ctxId cx\<rparr>, p2)"
proof -
  from assms(2) have "replay c (ctxId cx) (items session) p1 = (Inr (), p2)"
    by (simp add: replay_allAdded)
  with assms(1) show ?thesis by (simp add: recoverContext_def)
qed

lemma expiredWorld2_eq:
  "expiredWorld2 =
     (\<lparr>sessions = [''sess_0'' \<mapsto> phonePlanSession], sessionSupply = 1\<rparr>,
      \<lparr>contexts = [''ctx_0'' \<mapsto>
          \<lparr>cdContext = \<lparr>ctxId = ''ctx_0'', expiresAt = - 1000\<rparr>,
           ctxItems = [phoneItem, planItem]\<rparr>],
       itemCounter = 2, uuidSupply = 1, clock = 0\<rparr>)"
  by (simp add: expiredWorld2_def phonePlanSession_def phoneItem_def planItem_def world_eval)

subsection \<open>One recovery for an operation\<close>

text \<open>
  For every client and each of \<open>getCart\<close>, \<open>addItem\<close>, \<open>removeItem\<close>, \<open>updateItem\<close> on a
  known session: the operation first makes its provider call; if that call throws an
  expired-context error, the next provider call is \<open>createContext\<close> and no later call of the
  operation is; if it does not, the operation makes no further provider call. \<open>getCart\<close> and
  \<open>addItem\<close> throw an expired-context error only when the recovery succeeded and the retried
  call threw that error.
\<close>

lemma recovery_attempted_once:
  "(sessions svc sid = Some s0 \<longrightarrow>
      (\<exists>rest. snd (snd (snd (cs_getCart (traced c) t sid (svc, p, tr)))) =
                 tr @ GetCartCall (sfContextId s0) # rest \<and>
               oneRecovery (fst (getCart c (sfContextId s0) p)) rest)
    \<and> (\<exists>rest. snd (snd (snd (cs_addItem (traced c) t sid item (svc, p, tr)))) =
                 tr @ AddItemCall (sfContextId s0) item # rest \<and>
               oneRecovery (fst (addItem c (sfContextId s0) item p)) rest)
    \<and> (\<exists>rest. snd (snd (snd (cs_removeItem (traced c) t sid iid (svc, p, tr)))) =
                 tr @ RemoveItemCall (sfContextId s0) iid # rest \<and>
               oneRecovery (fst (removeItem c (sfContextId s0) iid p)) rest)
    \<and> (\<exists>rest. snd (snd (snd (cs_updateItem (traced c) t sid iid q (svc, p, tr)))) =
                 tr @ UpdateItemCall (sfContextId s0) iid q # rest \<and>
               oneRecovery (fst (updateItem c (sfContextId s0) iid q p)) rest))
   \<and> (sessions svc sid = Some s0 \<longrightarrow> instanceofContextExpiredError e \<longrightarrow>
        (cs_getCart c t sid (svc, p) = (Inl e, w') \<longrightarrow>
           (\<exists>error p1 s1 p2 p3.
              getCart c (sfContextId s0) p = (Inl error, p1) \<and>
              instanceofContextExpiredError error \<and>
              recoverContext c (s0\<lparr>lastAccessed := t\<rparr>) p1 = (Inr (), s1, p2) \<and>
              getCart c (sfContextId s1) p2 = (Inl e, p3)))
      \<and> (cs_addItem c t sid item (svc, p) = (Inl e, w') \<longrightarrow>
           (\<exists>error p1 s1 p2 p3.
              addItem c (sfContextId s0) item p = (Inl error, p1) \<and>
              instanceofContextExpiredError error \<and>
              recoverContext c (s0\<lparr>lastAccessed := t\<rparr>) p1 = (Inr (), s1, p2) \<and>
              addItem c (sfContextId s1) item p2 = (Inl e, p3))))"
proof (intro conjI impI)
  assume s: "sessions svc sid = Some s0"
  show "\<exists>rest. snd (snd (snd (cs_getCart (traced c) t sid (svc, p, tr)))) =
                 tr @ GetCartCall (sfContextId s0) # rest \<and>
               oneRecovery (fst (getCart c (sfContextId s0) p)) rest"
    by (rule cs_getCart_log[OF s])
  show "\<exists>rest. snd (snd (snd (cs_addItem (traced c) t sid item (svc, p, tr)))) =
                 tr @ AddItemCall (sfContextId s0) item # rest \<and>
               oneRecovery (fst (addItem c (sfContextId s0) item p)) rest"
    by (rule cs_addItem_log[OF s])
  show "\<exists>rest. snd (snd (snd (cs_removeItem (traced c) t sid iid (svc, p, tr)))) =
                 tr @ RemoveItemCall (sfContextId s0) iid # rest \<and>
               oneRecovery (fst (removeItem c (sfContextId s0) iid p)) rest"
    by (rule cs_removeItem_log[OF s])
  show "\<exists>rest. snd (snd (snd (cs_updateItem (traced c) t sid iid q (svc, p, tr)))) =
                 tr @ UpdateItemCall (sfContextId s0) iid q # rest \<and>
               oneRecovery (fst (updateItem c (sfContextId s0) iid q p)) rest"
    by (rule cs_updateItem_log[OF s])
next
  assume "sessions svc sid = Some s0" "instanceofContextExpiredError e"
    "cs_getCart c t sid (svc, p) = (Inl e, w')"
  then show "\<exists>error p1 s1 p2 p3.
              getCart c (sfContextId s0) p = (Inl error, p1) \<and>
              instanceofContextExpiredError error \<and>
              recoverContext c (s0\<lparr>lastAccessed := t\<rparr>) p1 = (Inr (), s1, p2) \<and>
              getCart c (sfContextId s1) p2 = (Inl e, p3)"
    by (intro cs_getCart_expired_from_retry)
next
  assume "sessions svc sid = Some s0" "instanceofContextExpiredError e"
    "cs_addItem c t sid item (svc, p) = (Inl e, w')"
  then show "\<exists>error p1 s1 p2 p3.
              addItem c (sfContextId s0) item p = (Inl error, p1) \<and>
              instanceofContextExpiredError error \<and>
              recoverContext c (s0\<lparr>lastAccessed := t\<rparr>) p1 = (Inr (), s1, p2) \<and>
              addItem c (sfContextId s1) item p2 = (Inl e, p3)"
    by (intro cs_addItem_expired_from_retry)
qed

section \<open>The claims\<close>

text \<open>
  C1, as amended. For every sequence of \<open>createCart\<close>, \<open>getCart\<close> and \<open>addItem\<close> calls on the
  service over the test double, interleaved with any number of induced expiries (the
  helper \<open>expireContext\<close> on any context id, the clock moving forward by any amount), the
  caller sees what the same calls give with no expiry at all: the same session ids, the
  same errors, and in every cart the same items in the same order (product id, name,
  price, quantity) and the same total. A recovery that succeeds, on any client, calls
  \<open>createContext\<close> once and then \<open>addItem\<close> on the new context for every item of
  \<open>session.items\<close>, in their order. A \<open>removeItem\<close> or \<open>updateItem\<close> that finds the context
  expired or unknown, with an item id that is in \<open>session.items\<close> and product ids that are
  pairwise distinct there, returns the items of \<open>session.items\<close> with the item of that id
  removed, or its quantity set, and the total of these. Beyond that, sequences with
  \<open>removeItem\<close> or \<open>updateItem\<close> are left out: item ids are scoped to one context and the
  remapping takes the first item with the product id.
\<close>

theorem C1_invisible_recovery:
  "((\<forall>e\<in>set evs. \<not> usesItemId e) \<longrightarrow>
      visibleRun evs (world_init t) = visibleRun (filter isCall evs) (world_init t))
   \<and> (recoverContext (traced c) session (p, tr) = (Inr u, session', p', tr') \<longrightarrow>
      tr' = tr @ CreateContextCall #
              map (\<lambda>item. AddItemCall (sfContextId session') (inputOf item)) (items session))
   \<and> (throwsExpired (getValidContext sf (sfContextId s0)) \<longrightarrow> sessions svc sid = Some s0 \<longrightarrow>
      distinct (map productId (items s0)) \<longrightarrow>
      findIndex (\<lambda>i. itemId i = iid) (items s0) = Some k \<longrightarrow>
        (\<exists>cart. fst (cs_removeItem SalesforceCartClient t sid iid (svc, sf)) = Inr cart \<and>
           visibleOf (Returned cart) =
             Some (VCart (splice1 k (map inputOf (items s0)))
                         (inputsTotal (splice1 k (map inputOf (items s0))))))
      \<and> (\<exists>cart. fst (cs_updateItem SalesforceCartClient t sid iid q (svc, sf)) = Inr cart \<and>
           visibleOf (Returned cart) =
             Some (VCart ((map inputOf (items s0))[k := (map inputOf (items s0) ! k)\<lparr>quantity := q\<rparr>])
                    (inputsTotal
                      ((map inputOf (items s0))[k := (map inputOf (items s0) ! k)\<lparr>quantity := q\<rparr>])))))"
proof (intro conjI impI)
  assume "\<forall>e\<in>set evs. \<not> usesItemId e"
  then show "visibleRun evs (world_init t) = visibleRun (filter isCall evs) (world_init t)"
    by (rule run_sim[OF Inv_init Inv_init refl])
next
  assume "recoverContext (traced c) session (p, tr) = (Inr u, session', p', tr')"
  then show "tr' = tr @ CreateContextCall #
              map (\<lambda>item. AddItemCall (sfContextId session') (inputOf item)) (items session)"
    by (rule recoverContext_traced)
next
  assume a: "throwsExpired (getValidContext sf (sfContextId s0))" "sessions svc sid = Some s0"
    "distinct (map productId (items s0))" "findIndex (\<lambda>i. itemId i = iid) (items s0) = Some k"
  from a(1) obtain e0 where dead: "getValidContext sf (sfContextId s0) = Inl e0"
    by (auto simp: throwsExpired_getValidContext)
  show "\<exists>cart. fst (cs_removeItem SalesforceCartClient t sid iid (svc, sf)) = Inr cart \<and>
           visibleOf (Returned cart) =
             Some (VCart (splice1 k (map inputOf (items s0)))
                         (inputsTotal (splice1 k (map inputOf (items s0)))))"
    by (rule remove_referenced_item[OF dead a(2,3,4)])
  show "\<exists>cart. fst (cs_updateItem SalesforceCartClient t sid iid q (svc, sf)) = Inr cart \<and>
           visibleOf (Returned cart) =
             Some (VCart ((map inputOf (items s0))[k := (map inputOf (items s0) ! k)\<lparr>quantity := q\<rparr>])
                    (inputsTotal
                      ((map inputOf (items s0))[k := (map inputOf (items s0) ! k)\<lparr>quantity := q\<rparr>])))"
    by (rule update_referenced_item[OF dead a(2,3,4)])
qed

text \<open>
  The claim as stated fails with two items of one product. The cart holds the phone once
  with quantity 1 (\<open>item_1\<close>) and once with quantity 2 (\<open>item_2\<close>); the context expires;
  \<open>removeItem\<close> with \<open>item_2\<close> recovers and removes the first item with that product id in
  the new context, the one with quantity 1. Without the expiry the same call removes the
  one with quantity 2.
\<close>

theorem C1_duplicate_product_counterexample:
  "visibleRun duplicateProducts (world_init 0) =
     [VCreated ''sess_0'' [] (Lit 0),
      VCart [phone] (Add (Lit 0) (Mul (Lit 100) (Lit 1))),
      VCart [phone, twoPhones]
        (Add (Add (Lit 0) (Mul (Lit 100) (Lit 1))) (Mul (Lit 100) (Lit 2))),
      VCart [twoPhones] (Add (Lit 0) (Mul (Lit 100) (Lit 2)))]
   \<and> visibleRun (filter isCall duplicateProducts) (world_init 0) =
     [VCreated ''sess_0'' [] (Lit 0),
      VCart [phone] (Add (Lit 0) (Mul (Lit 100) (Lit 1))),
      VCart [phone, twoPhones]
        (Add (Add (Lit 0) (Mul (Lit 100) (Lit 1))) (Mul (Lit 100) (Lit 2))),
      VCart [phone] (Add (Lit 0) (Mul (Lit 100) (Lit 1)))]"
  by (simp add: visibleRun_def duplicateProducts_def map_filter_simps twoPhones_def world_eval)

theorem C1_invisible_recovery_witness:
  "visibleRun scenarioB (world_init 0) = visibleRun (filter isCall scenarioB) (world_init 0)
   \<and> visibleRun scenarioB (world_init 0) =
       [VCreated ''sess_0'' [] (Lit 0),
        VCart [phone] (Add (Lit 0) (Mul (Lit 100) (Lit 1))),
        VCart [phone, plan]
          (Add (Add (Lit 0) (Mul (Lit 100) (Lit 1))) (Mul (Lit 50) (Lit 2))),
        VCart [phone, plan]
          (Add (Add (Lit 0) (Mul (Lit 100) (Lit 1))) (Mul (Lit 50) (Lit 2))),
        VThrown (CartNotFoundError ''sess_7'')]
   \<and> snd (snd (snd (recoverContext (traced SalesforceCartClient) phoneSession
                      (snd expiredWorld, [])))) =
       [CreateContextCall, AddItemCall ''ctx_1'' phone]
   \<and> (\<exists>cart. fst (cs_removeItem SalesforceCartClient 0 ''sess_0'' ''item_1'' expiredWorld) =
                 Inr cart \<and>
               visibleOf (Returned cart) = Some (VCart [] (Lit 0)))"
proof -
  have a: "\<forall>e\<in>set scenarioB. \<not> usesItemId e" by (simp add: scenarioB_def)
  have b: "visibleRun scenarioB (world_init 0) =
       [VCreated ''sess_0'' [] (Lit 0),
        VCart [phone] (Add (Lit 0) (Mul (Lit 100) (Lit 1))),
        VCart [phone, plan]
          (Add (Add (Lit 0) (Mul (Lit 100) (Lit 1))) (Mul (Lit 50) (Lit 2))),
        VCart [phone, plan]
          (Add (Add (Lit 0) (Mul (Lit 100) (Lit 1))) (Mul (Lit 50) (Lit 2))),
        VThrown (CartNotFoundError ''sess_7'')]"
    by (simp add: visibleRun_def scenarioB_def map_filter_simps world_eval)
  have c: "recoverContext (traced SalesforceCartClient) phoneSession (snd expiredWorld, []) =
             (Inr (), phoneSession\<lparr>sfContextId := ''ctx_1''\<rparr>,
              snd (snd (recoverContext (traced SalesforceCartClient) phoneSession
                      (snd expiredWorld, []))))"
    by (simp add: expiredWorld_eq phoneSession_def traced_def logged_def world_eval)
  have d: "throwsExpired (getValidContext (snd expiredWorld) (sfContextId phoneSession))"
    "sessions (fst expiredWorld) ''sess_0'' = Some phoneSession"
    "distinct (map productId (items phoneSession))"
    "findIndex (\<lambda>i. itemId i = ''item_1'') (items phoneSession) = Some 0"
    by (simp_all add: expiredWorld_eq phoneSession_def getValidContext_def throwsExpired_def)
  note inst = C1_invisible_recovery [where evs = scenarioB and t = 0 and c = SalesforceCartClient
      and session = phoneSession and p = "snd expiredWorld" and tr = "[]" and u = "()"
      and session' = "phoneSession\<lparr>sfContextId := ''ctx_1''\<rparr>"
      and p' = "fst (snd (snd (recoverContext (traced SalesforceCartClient) phoneSession
                      (snd expiredWorld, []))))"
      and tr' = "snd (snd (snd (recoverContext (traced SalesforceCartClient) phoneSession
                      (snd expiredWorld, []))))"
      and sf = "snd expiredWorld" and svc = "fst expiredWorld" and ?s0.0 = phoneSession
      and sid = "''sess_0''" and iid = "''item_1''" and k = 0]
  from inst a have e: "visibleRun scenarioB (world_init 0) =
      visibleRun (filter isCall scenarioB) (world_init 0)" by blast
  from inst c have f: "snd (snd (snd (recoverContext (traced SalesforceCartClient) phoneSession
                      (snd expiredWorld, [])))) =
         [CreateContextCall, AddItemCall ''ctx_1'' (inputOf (hd (items phoneSession)))]"
    by (simp add: phoneSession_def)
  from inst d have "\<exists>cart. fst (cs_removeItem SalesforceCartClient 0 ''sess_0'' ''item_1''
                               (fst expiredWorld, snd expiredWorld)) = Inr cart \<and>
           visibleOf (Returned cart) =
             Some (VCart (splice1 0 (map inputOf (items phoneSession)))
                         (inputsTotal (splice1 0 (map inputOf (items phoneSession)))))"
    by blast
  then have g: "\<exists>cart. fst (cs_removeItem SalesforceCartClient 0 ''sess_0'' ''item_1'' expiredWorld) =
                 Inr cart \<and>
               visibleOf (Returned cart) = Some (VCart [] (Lit 0))"
    by (simp add: phoneSession_def splice1_def inputsTotal_def)
  from b e f g show ?thesis by (simp add: phoneSession_def inputOf_def phone_def)
qed

text \<open>
  C2, as amended. The test of \<open>getValidContext\<close> is \<open>Date.now() > expiresAt\<close>: strict.
  Each of \<open>addItem\<close>, \<open>getCart\<close>, \<open>removeItem\<close> and \<open>updateItem\<close> of the provider throws
  \<open>ContextExpiredError\<close> for the context id, and leaves the provider state as it was, when
  the context id is unknown or the current instant is strictly past the expiry instant;
  in every other state none of the four throws an expired-context error. A context whose
  expiry instant equals the current instant is still valid.
\<close>

theorem C2_expiry_strict:
  "(unknownOrPast sf cid \<longrightarrow>
       sf_addItem cid item sf = (Inl (ContextExpiredError cid), sf)
     \<and> sf_getCart cid sf = (Inl (ContextExpiredError cid), sf)
     \<and> sf_removeItem cid iid sf = (Inl (ContextExpiredError cid), sf)
     \<and> sf_updateItem cid iid q sf = (Inl (ContextExpiredError cid), sf))
   \<and> (\<not> unknownOrPast sf cid \<longrightarrow>
       \<not> throwsExpired (fst (sf_addItem cid item sf))
     \<and> \<not> throwsExpired (fst (sf_getCart cid sf))
     \<and> \<not> throwsExpired (fst (sf_removeItem cid iid sf))
     \<and> \<not> throwsExpired (fst (sf_updateItem cid iid q sf)))
   \<and> (unknownOrPast sf cid \<longleftrightarrow>
        (\<forall>cd. contexts sf cid = Some cd \<longrightarrow> expiresAt (cdContext cd) < clock sf))"
  by (auto simp: sf_addItem_def sf_getCart_def sf_removeItem_def sf_updateItem_def
      getValidContext_iff throwsExpired_def Let_def unknownOrPast_def split: option.splits)

text \<open>
  The claim as stated fails at the boundary: a context created at instant 0 expires at
  1800000; with the clock at exactly 1800000 \<open>getCart\<close> returns the cart, and no provider
  operation throws an expired-context error.
\<close>

theorem C2_boundary_counterexample:
  "clock boundaryState = 1800000
   \<and> map_option (\<lambda>cd. expiresAt (cdContext cd)) (contexts boundaryState ''ctx_0'') = Some 1800000
   \<and> sf_getCart ''ctx_0'' boundaryState =
        (Inr \<lparr>cartId = ''cart_ctx_0'', cartItems = [], total = Lit 0\<rparr>, boundaryState)
   \<and> \<not> throwsExpired (fst (sf_addItem ''ctx_0'' phone boundaryState))
   \<and> \<not> throwsExpired (fst (sf_removeItem ''ctx_0'' ''item_1'' boundaryState))
   \<and> \<not> throwsExpired (fst (sf_updateItem ''ctx_0'' ''item_1'' 2 boundaryState))"
  by (simp add: boundaryState_def advanceClock_def sf_createContext_def sf_init_def
      CONTEXT_EXPIRY_MS_def randomUUID_def sf_getCart_def getValidContext_def buildCart_def
      itemsTotal_def sf_addItem_def sf_removeItem_def sf_updateItem_def throwsExpired_def Let_def)

theorem C2_expiry_strict_witness:
  "unknownOrPast pastState ''ctx_0''
   \<and> sf_getCart ''ctx_0'' pastState = (Inl (ContextExpiredError ''ctx_0''), pastState)
   \<and> sf_addItem ''ctx_0'' phone pastState = (Inl (ContextExpiredError ''ctx_0''), pastState)
   \<and> \<not> unknownOrPast boundaryState ''ctx_0''
   \<and> \<not> throwsExpired (fst (sf_getCart ''ctx_0'' boundaryState))"
proof -
  have a: "unknownOrPast pastState ''ctx_0''"
    by (simp add: unknownOrPast_def pastState_def advanceClock_def sf_createContext_def sf_init_def
      CONTEXT_EXPIRY_MS_def randomUUID_def Let_def)
  have b: "\<not> unknownOrPast boundaryState ''ctx_0''"
    by (simp add: unknownOrPast_def boundaryState_def advanceClock_def sf_createContext_def sf_init_def
      CONTEXT_EXPIRY_MS_def randomUUID_def Let_def)
  show ?thesis
    using a b C2_expiry_strict [of pastState "''ctx_0''" phone "''item_1''" 2]
      C2_expiry_strict [of boundaryState "''ctx_0''" phone "''item_1''" 2]
    by simp
qed

text \<open>
  C3, as amended. For every client, \<open>recoverContext\<close> goes call by call. If \<open>createContext\<close>
  throws, or if it returns and, the items before it having been added to the new context
  one after the other, the \<open>addItem\<close> of some item of \<open>session.items\<close> throws, then the
  recovery ends there, in the provider state that the throwing call left (no later item is
  replayed), the session is exactly as before: same context id, same items; and the error
  is \<open>ContextRecoveryFailedError\<close> with the session id. Its cause is the thrown value when
  that is an \<open>Error\<close> instance; a thrown value that is not an \<open>Error\<close> is dropped, and the error
  has no cause (\<open>causeOf\<close>). If \<open>createContext\<close> returns and the \<open>addItem\<close> of every item
  returns, the session is rebound to the new context, its other fields as before.
  Conversely, a recovery that returns made all these calls with none throwing, and a
  recovery that throws met one of the two failures. (With a \<open>traced\<close> client the provider
  state includes the log of the calls.) When the recovery inside \<open>getCart\<close>,
  \<open>addItem\<close>, \<open>removeItem\<close> or \<open>updateItem\<close> throws, the operation throws that error and the
  stored session keeps its context id and its items (only \<open>lastAccessed\<close> was set).
\<close>

theorem C3_recovery_atomic:
  "(createContext c p = (Inl thrown, p1) \<longrightarrow>
      recoverContext c session p =
        (Inl (ContextRecoveryFailedError (sessionId session) (causeOf thrown)), session, p1))
   \<and> (createContext c p = (Inr cx, p1) \<longrightarrow> items session = ys @ item # zs \<longrightarrow>
      allAdded c (ctxId cx) ys p1 p2 \<longrightarrow>
      addItem c (ctxId cx) (inputOf item) p2 = (Inl thrown, p3) \<longrightarrow>
        recoverContext c session p =
          (Inl (ContextRecoveryFailedError (sessionId session) (causeOf thrown)), session, p3))
   \<and> (createContext c p = (Inr cx, p1) \<longrightarrow> allAdded c (ctxId cx) (items session) p1 p2 \<longrightarrow>
        recoverContext c session p = (Inr (), session\<lparr>sfContextId := ctxId cx\<rparr>, p2))
   \<and> (recoverContext c session p = (Inr u, session', p') \<longrightarrow>
        (\<exists>cx p1. createContext c p = (Inr cx, p1) \<and>
           allAdded c (ctxId cx) (items session) p1 p' \<and>
           session' = session\<lparr>sfContextId := ctxId cx\<rparr>))
   \<and> (recoverContext c session p = (Inl e, session', p') \<longrightarrow>
        session' = session \<and>
        (\<exists>thrown. e = ContextRecoveryFailedError (sessionId session) (causeOf thrown) \<and>
           (createContext c p = (Inl thrown, p') \<or>
            (\<exists>cx p1 ys item zs p2. createContext c p = (Inr cx, p1) \<and>
               items session = ys @ item # zs \<and> allAdded c (ctxId cx) ys p1 p2 \<and>
               addItem c (ctxId cx) (inputOf item) p2 = (Inl thrown, p')))))
   \<and> causeOf (OtherError m) = Some (OtherError m) \<and> causeOf (NonError v) = None
   \<and> (sessions svc sid = Some s0 \<longrightarrow> instanceofContextExpiredError error \<longrightarrow>
        recoverContext c (s0\<lparr>lastAccessed := t\<rparr>) pb = (Inl e, s1, pc) \<longrightarrow>
          (getCart c (sfContextId s0) pa = (Inl error, pb) \<longrightarrow>
             cs_getCart c t sid (svc, pa) =
               (Inl e, putSession sid (s0\<lparr>lastAccessed := t\<rparr>) svc, pc))
        \<and> (addItem c (sfContextId s0) new pa = (Inl error, pb) \<longrightarrow>
             cs_addItem c t sid new (svc, pa) =
               (Inl e, putSession sid (s0\<lparr>lastAccessed := t\<rparr>) svc, pc))
        \<and> (removeItem c (sfContextId s0) iid pa = (Inl error, pb) \<longrightarrow>
             cs_removeItem c t sid iid (svc, pa) =
               (Inl e, putSession sid (s0\<lparr>lastAccessed := t\<rparr>) svc, pc))
        \<and> (updateItem c (sfContextId s0) iid q pa = (Inl error, pb) \<longrightarrow>
             cs_updateItem c t sid iid q (svc, pa) =
               (Inl e, putSession sid (s0\<lparr>lastAccessed := t\<rparr>) svc, pc)))"
proof (intro conjI impI)
  assume "createContext c p = (Inl thrown, p1)"
  then show "recoverContext c session p =
        (Inl (ContextRecoveryFailedError (sessionId session) (causeOf thrown)), session, p1)"
    by (rule recoverContext_created_throws)
next
  assume "createContext c p = (Inr cx, p1)" "items session = ys @ item # zs"
    "allAdded c (ctxId cx) ys p1 p2" "addItem c (ctxId cx) (inputOf item) p2 = (Inl thrown, p3)"
  then show "recoverContext c session p =
          (Inl (ContextRecoveryFailedError (sessionId session) (causeOf thrown)), session, p3)"
    by (rule recoverContext_replay_throws)
next
  assume "createContext c p = (Inr cx, p1)" "allAdded c (ctxId cx) (items session) p1 p2"
  then show "recoverContext c session p = (Inr (), session\<lparr>sfContextId := ctxId cx\<rparr>, p2)"
    by (rule recoverContext_rebinds)
next
  assume "recoverContext c session p = (Inr u, session', p')"
  with recoverContext_steps[where c = c and session = session and p = p]
  show "\<exists>cx p1. createContext c p = (Inr cx, p1) \<and>
           allAdded c (ctxId cx) (items session) p1 p' \<and>
           session' = session\<lparr>sfContextId := ctxId cx\<rparr>"
    by simp
next
  assume a: "recoverContext c session p = (Inl e, session', p')"
  with recoverContext_steps[where c = c and session = session and p = p]
  show "session' = session" by simp
  from a recoverContext_steps[where c = c and session = session and p = p]
  show "\<exists>thrown. e = ContextRecoveryFailedError (sessionId session) (causeOf thrown) \<and>
           (createContext c p = (Inl thrown, p') \<or>
            (\<exists>cx p1 ys item zs p2. createContext c p = (Inr cx, p1) \<and>
               items session = ys @ item # zs \<and> allAdded c (ctxId cx) ys p1 p2 \<and>
               addItem c (ctxId cx) (inputOf item) p2 = (Inl thrown, p')))"
    by simp
next
  show "causeOf (OtherError m) = Some (OtherError m)" by (simp add: causeOf_def)
  show "causeOf (NonError v) = None" by (simp add: causeOf_def)
next
  assume s: "sessions svc sid = Some s0" and x: "instanceofContextExpiredError error"
    and r: "recoverContext c (s0\<lparr>lastAccessed := t\<rparr>) pb = (Inl e, s1, pc)"
  from r recoverContext_steps[where c = c and session = "s0\<lparr>lastAccessed := t\<rparr>" and p = pb]
  have keeps: "s1 = s0\<lparr>lastAccessed := t\<rparr>" by simp
  {
    assume "getCart c (sfContextId s0) pa = (Inl error, pb)"
    with s x r keeps
    show "cs_getCart c t sid (svc, pa) = (Inl e, putSession sid (s0\<lparr>lastAccessed := t\<rparr>) svc, pc)"
      by (simp add: cs_getCart_def getSession_def)
  next
    assume "addItem c (sfContextId s0) new pa = (Inl error, pb)"
    with s x r keeps
    show "cs_addItem c t sid new (svc, pa) =
            (Inl e, putSession sid (s0\<lparr>lastAccessed := t\<rparr>) svc, pc)"
      by (simp add: cs_addItem_def getSession_def)
  next
    assume "removeItem c (sfContextId s0) iid pa = (Inl error, pb)"
    with s x r keeps
    show "cs_removeItem c t sid iid (svc, pa) =
            (Inl e, putSession sid (s0\<lparr>lastAccessed := t\<rparr>) svc, pc)"
      by (simp add: cs_removeItem_def getSession_def)
  next
    assume "updateItem c (sfContextId s0) iid q pa = (Inl error, pb)"
    with s x r keeps
    show "cs_updateItem c t sid iid q (svc, pa) =
            (Inl e, putSession sid (s0\<lparr>lastAccessed := t\<rparr>) svc, pc)"
      by (simp add: cs_updateItem_def getSession_def)
  }
qed

text \<open>
  The claim as stated fails for a client that throws a value that is not an \<open>Error\<close>
  instance. The session holds the phone and its context has expired; \<open>getCart\<close> starts the
  recovery; \<open>createContext\<close> returns \<open>ctx_1\<close>; the replay's \<open>addItem\<close> of the phone throws the
  string \<open>timeout\<close>. The session keeps \<open>ctx_0\<close> and its item, and the operation throws
  \<open>ContextRecoveryFailedError\<close> for \<open>sess_0\<close>, which carries no cause.
\<close>

theorem C3_cause_dropped_counterexample:
  "cs_getCart (refusing ''p1'' (NonError ''timeout'')) 5 ''sess_0'' expiredWorld =
     (Inl (ContextRecoveryFailedError ''sess_0'' None),
      putSession ''sess_0'' (phoneSession\<lparr>lastAccessed := 5\<rparr>) (fst expiredWorld),
      snd (sf_createContext (snd expiredWorld)))
   \<and> addItem (refusing ''p1'' (NonError ''timeout'')) ''ctx_1'' phone
        (snd (sf_createContext (snd expiredWorld))) =
       (Inl (NonError ''timeout''), snd (sf_createContext (snd expiredWorld)))"
  by (simp add: expiredWorld_eq phoneSession_def refusing_def world_eval)

theorem C3_recovery_atomic_witness:
  "createContext (refusing ''p2'' (OtherError ''Provider unavailable'')) (snd expiredWorld2) =
     (Inr \<lparr>ctxId = ''ctx_1'', expiresAt = 1800000\<rparr>, snd (sf_createContext (snd expiredWorld2)))
   \<and> items phonePlanSession = [phoneItem] @ planItem # []
   \<and> allAdded (refusing ''p2'' (OtherError ''Provider unavailable'')) ''ctx_1'' [phoneItem]
        (snd (sf_createContext (snd expiredWorld2)))
        (snd (sf_addItem ''ctx_1'' phone (snd (sf_createContext (snd expiredWorld2)))))
   \<and> addItem (refusing ''p2'' (OtherError ''Provider unavailable'')) ''ctx_1'' (inputOf planItem)
        (snd (sf_addItem ''ctx_1'' phone (snd (sf_createContext (snd expiredWorld2))))) =
       (Inl (OtherError ''Provider unavailable''),
        snd (sf_addItem ''ctx_1'' phone (snd (sf_createContext (snd expiredWorld2)))))
   \<and> recoverContext (refusing ''p2'' (OtherError ''Provider unavailable'')) phonePlanSession
        (snd expiredWorld2) =
       (Inl (ContextRecoveryFailedError ''sess_0'' (Some (OtherError ''Provider unavailable''))),
        phonePlanSession,
        snd (sf_addItem ''ctx_1'' phone (snd (sf_createContext (snd expiredWorld2)))))
   \<and> cs_getCart (refusing ''p2'' (OtherError ''Provider unavailable'')) 5 ''sess_0'' expiredWorld2 =
       (Inl (ContextRecoveryFailedError ''sess_0'' (Some (OtherError ''Provider unavailable''))),
        putSession ''sess_0'' (phonePlanSession\<lparr>lastAccessed := 5\<rparr>) (fst expiredWorld2),
        snd (sf_addItem ''ctx_1'' phone (snd (sf_createContext (snd expiredWorld2)))))
   \<and> map_option ctxItems
        (contexts (snd (sf_addItem ''ctx_1'' phone (snd (sf_createContext (snd expiredWorld2)))))
           ''ctx_1'') =
       Some [\<lparr>productId = ''p1'', name = ''Phone'', price = 100, quantity = 1,
              itemId = ''item_3''\<rparr>]
   \<and> recoverContext downClient phonePlanSession (snd expiredWorld2) =
       (Inl (ContextRecoveryFailedError ''sess_0'' (Some (OtherError ''Provider unavailable''))),
        phonePlanSession, snd expiredWorld2)"
proof -
  let ?R = "refusing ''p2'' (OtherError ''Provider unavailable'')"
  let ?p = "snd expiredWorld2"
  let ?p1 = "snd (sf_createContext (snd expiredWorld2))"
  let ?p2 = "snd (sf_addItem ''ctx_1'' phone (snd (sf_createContext (snd expiredWorld2))))"
  let ?cx = "\<lparr>ctxId = ''ctx_1'', expiresAt = 1800000\<rparr>"
  let ?E = "ContextRecoveryFailedError ''sess_0'' (Some (OtherError ''Provider unavailable''))"
  have a: "createContext ?R ?p = (Inr ?cx, ?p1)"
    by (simp add: expiredWorld2_eq refusing_def world_eval)
  have b: "items phonePlanSession = [phoneItem] @ planItem # []"
    by (simp add: phonePlanSession_def)
  have c: "allAdded ?R (ctxId ?cx) [phoneItem] ?p1 ?p2"
    by (simp add: expiredWorld2_eq refusing_def phoneItem_def world_eval)
  have d: "addItem ?R (ctxId ?cx) (inputOf planItem) ?p2 =
             (Inl (OtherError ''Provider unavailable''), ?p2)"
    by (simp add: refusing_def planItem_def inputOf_def)
  have e: "recoverContext ?R phonePlanSession ?p = (Inl ?E, phonePlanSession, ?p2)"
    using C3_recovery_atomic [where c = ?R and p = ?p and cx = ?cx and ?p1.0 = ?p1
        and session = phonePlanSession and ys = "[phoneItem]" and item = planItem and zs = "[]"
        and ?p2.0 = ?p2 and thrown = "OtherError ''Provider unavailable''" and ?p3.0 = ?p2
        and m = "''Provider unavailable''"]
      a b c d
    by (simp add: phonePlanSession_def)
  have e5: "recoverContext ?R (phonePlanSession\<lparr>lastAccessed := 5\<rparr>) ?p =
              (Inl ?E, phonePlanSession\<lparr>lastAccessed := 5\<rparr>, ?p2)"
    using recoverContext_replay_throws [where c = ?R and p = ?p and cx = ?cx and ?p1.0 = ?p1
        and session = "phonePlanSession\<lparr>lastAccessed := 5\<rparr>" and ys = "[phoneItem]"
        and item = planItem and zs = "[]" and ?p2.0 = ?p2
        and thrown = "OtherError ''Provider unavailable''" and ?p3.0 = ?p2]
      a b c d
    by (simp add: phonePlanSession_def causeOf_def)
  have f: "sessions (fst expiredWorld2) ''sess_0'' = Some phonePlanSession"
    by (simp add: expiredWorld2_eq)
  have g: "getCart ?R (sfContextId phonePlanSession) ?p = (Inl (ContextExpiredError ''ctx_0''), ?p)"
    by (simp add: expiredWorld2_eq refusing_def phonePlanSession_def SalesforceCartClient_def
        sf_getCart_def getValidContext_def)
  have h: "cs_getCart ?R 5 ''sess_0'' expiredWorld2 =
             (Inl ?E, putSession ''sess_0'' (phonePlanSession\<lparr>lastAccessed := 5\<rparr>)
                (fst expiredWorld2), ?p2)"
    using C3_recovery_atomic [where c = ?R and svc = "fst expiredWorld2" and sid = "''sess_0''"
        and ?s0.0 = phonePlanSession and error = "ContextExpiredError ''ctx_0''" and t = 5
        and pa = ?p and pb = ?p and pc = ?p2 and e = ?E
        and ?s1.0 = "phonePlanSession\<lparr>lastAccessed := 5\<rparr>"]
      f g e5
    by simp
  have i: "map_option ctxItems (contexts ?p2 ''ctx_1'') =
       Some [\<lparr>productId = ''p1'', name = ''Phone'', price = 100, quantity = 1,
              itemId = ''item_3''\<rparr>]"
    by (simp add: expiredWorld2_eq world_eval)
  have j: "createContext downClient ?p = (Inl (OtherError ''Provider unavailable''), ?p)"
    by (simp add: downClient_def unavailable_def)
  have k: "recoverContext downClient phonePlanSession ?p = (Inl ?E, phonePlanSession, ?p)"
    using C3_recovery_atomic [where c = downClient and p = ?p and ?p1.0 = ?p
        and thrown = "OtherError ''Provider unavailable''" and session = phonePlanSession
        and m = "''Provider unavailable''"] j
    by (simp add: phonePlanSession_def)
  from a b c d e h i k show ?thesis by simp
qed

text \<open>
  C4, at a failing input. The remapping by product id is as the claim says, but its last
  part fails: with the session's context expired, \<open>removeItem\<close> or \<open>updateItem\<close> with an
  item id that is not in \<open>session.items\<close> recovers (the session is bound to \<open>ctx_1\<close>) and
  then re-throws the caught error, which is the \<open>ContextExpiredError\<close> of the old context.
  The same calls without the expiry throw \<open>ItemNotFoundError\<close>.
\<close>

theorem C4_unknown_item_after_expiry:
  "fst (run [Call CreateCart, Call (AddItem ''sess_0'' phone), ExpireContext ''ctx_0'',
             Call (RemoveItem ''sess_0'' ''item_9'')] (world_init 0)) =
     [Created ''sess_0'' \<lparr>cartId = ''cart_sess_0'', cartItems = [], total = Lit 0\<rparr>,
      Returned \<lparr>cartId = ''cart_ctx_0'',
                cartItems = [\<lparr>productId = ''p1'', name = ''Phone'', price = 100, quantity = 1,
                              itemId = ''item_1''\<rparr>],
                total = Add (Lit 0) (Mul (Lit 100) (Lit 1))\<rparr>,
      Silent,
      Thrown (ContextExpiredError ''ctx_0'')]
   \<and> fst (run [Call CreateCart, Call (AddItem ''sess_0'' phone),
             Call (RemoveItem ''sess_0'' ''item_9'')] (world_init 0)) =
     [Created ''sess_0'' \<lparr>cartId = ''cart_sess_0'', cartItems = [], total = Lit 0\<rparr>,
      Returned \<lparr>cartId = ''cart_ctx_0'',
                cartItems = [\<lparr>productId = ''p1'', name = ''Phone'', price = 100, quantity = 1,
                              itemId = ''item_1''\<rparr>],
                total = Add (Lit 0) (Mul (Lit 100) (Lit 1))\<rparr>,
      Thrown (ItemNotFoundError ''item_9'')]
   \<and> last (fst (run [Call CreateCart, Call (AddItem ''sess_0'' phone), ExpireContext ''ctx_0'',
             Call (UpdateItem ''sess_0'' ''item_9'' 3)] (world_init 0))) =
       Thrown (ContextExpiredError ''ctx_0'')
   \<and> last (fst (run [Call CreateCart, Call (AddItem ''sess_0'' phone),
             Call (UpdateItem ''sess_0'' ''item_9'' 3)] (world_init 0))) =
       Thrown (ItemNotFoundError ''item_9'')
   \<and> map_option sfContextId
        (sessions (fst (snd (run [Call CreateCart, Call (AddItem ''sess_0'' phone),
             ExpireContext ''ctx_0'', Call (RemoveItem ''sess_0'' ''item_9'')] (world_init 0))))
           ''sess_0'') = Some ''ctx_1''"
  by (simp add: world_eval)

text \<open>
  C5, at a failing input. An expired-context error of an operation's first provider call
  is intercepted and starts one recovery (\<open>recovery_attempted_once\<close>), but \<open>removeItem\<close> and
  \<open>updateItem\<close> can then surface that very error. The session \<open>sess_0\<close> holds the phone as
  \<open>item_1\<close> and its context \<open>ctx_0\<close> has expired; the caller removes, or updates, \<open>item_9\<close>,
  an id that is not in \<open>session.items\<close>. The provider is called three times: the call on
  \<open>ctx_0\<close>, which throws; \<open>createContext\<close>; the replay of the phone into \<open>ctx_1\<close>. The recovery
  succeeds and the session is bound to \<open>ctx_1\<close>. Nothing is retried: the operation throws
  the error it caught from the first call, \<open>ContextExpiredError\<close> for \<open>ctx_0\<close>, to its
  caller.
\<close>

theorem C5_expired_error_rethrown:
  "cs_removeItem (traced SalesforceCartClient) 0 ''sess_0'' ''item_9''
       (fst expiredWorld, snd expiredWorld, []) =
     (Inl (ContextExpiredError ''ctx_0''),
      putSession ''sess_0'' (phoneSession\<lparr>sfContextId := ''ctx_1''\<rparr>) (fst expiredWorld),
      migrated (items phoneSession) (snd expiredWorld),
      [RemoveItemCall ''ctx_0'' ''item_9'', CreateContextCall, AddItemCall ''ctx_1'' phone])
   \<and> cs_updateItem (traced SalesforceCartClient) 0 ''sess_0'' ''item_9'' 3
       (fst expiredWorld, snd expiredWorld, []) =
     (Inl (ContextExpiredError ''ctx_0''),
      putSession ''sess_0'' (phoneSession\<lparr>sfContextId := ''ctx_1''\<rparr>) (fst expiredWorld),
      migrated (items phoneSession) (snd expiredWorld),
      [UpdateItemCall ''ctx_0'' ''item_9'' 3, CreateContextCall, AddItemCall ''ctx_1'' phone])
   \<and> fst (perform (RemoveItem ''sess_0'' ''item_9'') expiredWorld) =
        Thrown (ContextExpiredError ''ctx_0'')
   \<and> fst (perform (UpdateItem ''sess_0'' ''item_9'' 3) expiredWorld) =
        Thrown (ContextExpiredError ''ctx_0'')
   \<and> sessions (fst expiredWorld) ''sess_0'' = Some phoneSession
   \<and> map_option ctxItems (contexts (migrated (items phoneSession) (snd expiredWorld)) ''ctx_1'') =
        Some [\<lparr>productId = ''p1'', name = ''Phone'', price = 100, quantity = 1,
               itemId = ''item_2''\<rparr>]"
  by (simp add: expiredWorld_eq phoneSession_def traced_def logged_def migrated_def
      freshContext_def world_eval)



text \<open>
  C7. A call of \<open>getCart\<close>, \<open>addItem\<close>, \<open>removeItem\<close> or \<open>updateItem\<close> with a session
  id that is not in the session table throws \<open>CartNotFoundError\<close> for that id and
  leaves the service state and the provider state as they were. The client is arbitrary:
  with a \<open>traced\<close> client the unchanged provider state includes the log, so no provider
  call was made.
\<close>

theorem C7_unknown_session:
  assumes "sessions svc sid = None"
  shows "cs_getCart c t sid (svc, p) = (Inl (CartNotFoundError sid), svc, p)
       \<and> cs_addItem c t sid item (svc, p) = (Inl (CartNotFoundError sid), svc, p)
       \<and> cs_removeItem c t sid iid (svc, p) = (Inl (CartNotFoundError sid), svc, p)
       \<and> cs_updateItem c t sid iid q (svc, p) = (Inl (CartNotFoundError sid), svc, p)"
  using assms by (rule cs_unknown_session)

theorem C7_unknown_session_witness:
  "sessions cs_init ''sess_9'' = None
   \<and> cs_getCart (traced SalesforceCartClient) 0 ''sess_9'' (cs_init, sf_init 0, []) =
       (Inl (CartNotFoundError ''sess_9''), cs_init, sf_init 0, [])
   \<and> cs_addItem (traced SalesforceCartClient) 0 ''sess_9'' phone (cs_init, sf_init 0, []) =
       (Inl (CartNotFoundError ''sess_9''), cs_init, sf_init 0, [])
   \<and> cs_removeItem (traced SalesforceCartClient) 0 ''sess_9'' ''item_1'' (cs_init, sf_init 0, []) =
       (Inl (CartNotFoundError ''sess_9''), cs_init, sf_init 0, [])
   \<and> cs_updateItem (traced SalesforceCartClient) 0 ''sess_9'' ''item_1'' 3 (cs_init, sf_init 0, []) =
       (Inl (CartNotFoundError ''sess_9''), cs_init, sf_init 0, [])"
proof -
  have h: "sessions cs_init ''sess_9'' = None" by (simp add: cs_init_def)
  show ?thesis
    using h C7_unknown_session [OF h, of "traced SalesforceCartClient" 0 "(sf_init 0, [])" phone "''item_1''" 3]
    by simp
qed

text \<open>
  C8, at a failing input. \<open>getCart\<close> does not call \<open>syncSessionItems\<close>. After a \<open>getCart\<close>
  that recovered, the caller holds the item ids of the new context while \<open>session.items\<close>
  still holds those of the abandoned one. If the new context expires too, \<open>removeItem\<close>
  with the id the caller was given finds no such id in \<open>session.items\<close> and throws the
  \<open>ContextExpiredError\<close>.
\<close>

theorem C8_getCart_leaves_stale_items:
  "fst (run [Call CreateCart, Call (AddItem ''sess_0'' phone), ExpireContext ''ctx_0'',
             Call (GetCart ''sess_0'')] (world_init 0)) =
     [Created ''sess_0'' \<lparr>cartId = ''cart_sess_0'', cartItems = [], total = Lit 0\<rparr>,
      Returned \<lparr>cartId = ''cart_ctx_0'',
                cartItems = [\<lparr>productId = ''p1'', name = ''Phone'', price = 100, quantity = 1,
                              itemId = ''item_1''\<rparr>],
                total = Add (Lit 0) (Mul (Lit 100) (Lit 1))\<rparr>,
      Silent,
      Returned \<lparr>cartId = ''cart_ctx_1'',
                cartItems = [\<lparr>productId = ''p1'', name = ''Phone'', price = 100, quantity = 1,
                              itemId = ''item_2''\<rparr>],
                total = Add (Lit 0) (Mul (Lit 100) (Lit 1))\<rparr>]
   \<and> map_option items
        (sessions (fst (snd (run [Call CreateCart, Call (AddItem ''sess_0'' phone),
             ExpireContext ''ctx_0'', Call (GetCart ''sess_0'')] (world_init 0)))) ''sess_0'') =
       Some [\<lparr>productId = ''p1'', name = ''Phone'', price = 100, quantity = 1,
              itemId = ''item_1''\<rparr>]
   \<and> last (fst (run [Call CreateCart, Call (AddItem ''sess_0'' phone), ExpireContext ''ctx_0'',
             Call (GetCart ''sess_0''), ExpireContext ''ctx_1'',
             Call (RemoveItem ''sess_0'' ''item_2'')] (world_init 0))) =
       Thrown (ContextExpiredError ''ctx_1'')
   \<and> last (fst (run [Call CreateCart, Call (AddItem ''sess_0'' phone),
             Call (GetCart ''sess_0''), Call (RemoveItem ''sess_0'' ''item_1'')] (world_init 0))) =
       Returned \<lparr>cartId = ''cart_ctx_0'', cartItems = [], total = Lit 0\<rparr>"
  by (simp add: world_eval)

text \<open>
  C9. On the test double \<open>createCart\<close> returns the cart \<open>cart_<sessionId>\<close>, the session id
  beginning \<open>sess_\<close>. In every reachable state, a cart returned by \<open>getCart\<close>, \<open>addItem\<close>,
  \<open>removeItem\<close> or \<open>updateItem\<close> has the id \<open>cart_<contextId>\<close> of the session's context as
  the call leaves it, a context id beginning \<open>ctx_\<close>; so it differs from the id returned
  at creation. When the call found the session's context expired or unknown, the session
  has a new context id and the cart id differs from the one the old context gave;
  otherwise the context id is unchanged.
\<close>

theorem C9_cart_id:
  "(\<exists>sid. fst (perform CreateCart w) =
             Created sid \<lparr>cartId = ''cart_'' @ sid, cartItems = [], total = Lit 0\<rparr> \<and>
           take 5 sid = ''sess_'')
   \<and> (reachable w \<longrightarrow> fst (perform op w) = Returned cart \<longrightarrow>
        (\<exists>sid s s'. sessionOf op = Some sid \<and> sessions (fst w) sid = Some s \<and>
           sessions (fst (snd (perform op w))) sid = Some s' \<and>
           cartId cart = ''cart_'' @ sfContextId s' \<and> take 4 (sfContextId s') = ''ctx_'' \<and>
           cartId cart \<noteq> ''cart_'' @ sid \<and>
           (if throwsExpired (getValidContext (snd w) (sfContextId s))
            then sfContextId s' \<noteq> sfContextId s \<and> cartId cart \<noteq> ''cart_'' @ sfContextId s
            else sfContextId s' = sfContextId s)))"
proof (intro conjI impI)
  show "\<exists>sid. fst (perform CreateCart w) =
             Created sid \<lparr>cartId = ''cart_'' @ sid, cartItems = [], total = Lit 0\<rparr> \<and>
           take 5 sid = ''sess_''"
    by (simp add: perform_CreateCart del: perform.simps)
next
  assume "reachable w" "fst (perform op w) = Returned cart"
  then show "\<exists>sid s s'. sessionOf op = Some sid \<and> sessions (fst w) sid = Some s \<and>
           sessions (fst (snd (perform op w))) sid = Some s' \<and>
           cartId cart = ''cart_'' @ sfContextId s' \<and> take 4 (sfContextId s') = ''ctx_'' \<and>
           cartId cart \<noteq> ''cart_'' @ sid \<and>
           (if throwsExpired (getValidContext (snd w) (sfContextId s))
            then sfContextId s' \<noteq> sfContextId s \<and> cartId cart \<noteq> ''cart_'' @ sfContextId s
            else sfContextId s' = sfContextId s)"
    by (rule perform_cart_id)
qed

theorem C9_cart_id_witness:
  "reachable expiredWorld
   \<and> fst (perform (GetCart ''sess_0'') expiredWorld) =
       Returned \<lparr>cartId = ''cart_ctx_1'',
                 cartItems = [\<lparr>productId = ''p1'', name = ''Phone'', price = 100, quantity = 1,
                               itemId = ''item_2''\<rparr>],
                 total = Add (Lit 0) (Mul (Lit 100) (Lit 1))\<rparr>
   \<and> (\<exists>s s'. sessions (fst expiredWorld) ''sess_0'' = Some s \<and>
         sessions (fst (snd (perform (GetCart ''sess_0'') expiredWorld))) ''sess_0'' = Some s' \<and>
         ''cart_ctx_1'' = ''cart_'' @ sfContextId s' \<and> sfContextId s = ''ctx_0'' \<and>
         sfContextId s' \<noteq> sfContextId s)"
proof -
  let ?C = "\<lparr>cartId = ''cart_ctx_1'',
                 cartItems = [\<lparr>productId = ''p1'', name = ''Phone'', price = 100, quantity = 1,
                               itemId = ''item_2''\<rparr>],
                 total = Add (Lit 0) (Mul (Lit 100) (Lit 1))\<rparr>"
  have b: "fst (perform (GetCart ''sess_0'') expiredWorld) = Returned ?C"
    by (simp add: expiredWorld_eq world_eval)
  have c: "\<And>s. sessions (fst expiredWorld) ''sess_0'' = Some s \<Longrightarrow>
      sfContextId s = ''ctx_0'' \<and> throwsExpired (getValidContext (snd expiredWorld) (sfContextId s))"
    by (auto simp: expiredWorld_eq getValidContext_def throwsExpired_def)
  from C9_cart_id [where w = expiredWorld and op = "GetCart ''sess_0''" and cart = ?C]
    reachable_expiredWorld b
  obtain s s' where d: "sessions (fst expiredWorld) ''sess_0'' = Some s"
       "sessions (fst (snd (perform (GetCart ''sess_0'') expiredWorld))) ''sess_0'' = Some s'"
       "cartId ?C = ''cart_'' @ sfContextId s'"
       "if throwsExpired (getValidContext (snd expiredWorld) (sfContextId s))
            then sfContextId s' \<noteq> sfContextId s \<and> cartId ?C \<noteq> ''cart_'' @ sfContextId s
            else sfContextId s' = sfContextId s"
    by auto
  from c[OF d(1)] have e: "sfContextId s = ''ctx_0''"
    and f: "throwsExpired (getValidContext (snd expiredWorld) (sfContextId s))" by blast+
  from d(4) f have g: "sfContextId s' \<noteq> sfContextId s" by simp
  from d(3) have h: "''cart_ctx_1'' = ''cart_'' @ sfContextId s'" by simp
  from d(1,2) e g h have "\<exists>s s'. sessions (fst expiredWorld) ''sess_0'' = Some s \<and>
         sessions (fst (snd (perform (GetCart ''sess_0'') expiredWorld))) ''sess_0'' = Some s' \<and>
         ''cart_ctx_1'' = ''cart_'' @ sfContextId s' \<and> sfContextId s = ''ctx_0'' \<and>
         sfContextId s' \<noteq> sfContextId s" by blast
  with reachable_expiredWorld b show ?thesis by simp
qed

text \<open>
  C10. On the test double, in any state: \<open>recoverContext\<close> succeeds, and \<open>getCart\<close> on the
  new context then returns a cart whose items carry the product ids of \<open>session.items\<close>,
  in the same order. Hence, after the recovery in the catch block of \<open>removeItem\<close> or
  \<open>updateItem\<close>, the search by product id finds an item whenever the search by item id in
  \<open>session.items\<close> did, and the \<open>ContextRecoveryFailedError\<close> of the branch
  \<open>if (!newItem)\<close> is never thrown: neither the rest of the catch block nor the whole
  operation ends in a recovery-failed error.
\<close>

theorem C10_branch_unreachable:
  "recoverContext SalesforceCartClient s sf =
     (Inr (), s\<lparr>sfContextId := ctxId (freshContext sf)\<rparr>, migrated (items s) sf)
   \<and> (\<exists>cart. sf_getCart (ctxId (freshContext sf)) (migrated (items s) sf) =
                 (Inr cart, migrated (items s) sf) \<and>
               map productId (cartItems cart) = map productId (items s))
   \<and> (instanceofContextExpiredError error \<longrightarrow>
        \<not> isRecoveryFailed (fst (removeAfterRecovery SalesforceCartClient sid iid error
              (s\<lparr>sfContextId := ctxId (freshContext sf)\<rparr>) svc (migrated (items s) sf))) \<and>
        \<not> isRecoveryFailed (fst (updateAfterRecovery SalesforceCartClient sid iid q error
              (s\<lparr>sfContextId := ctxId (freshContext sf)\<rparr>) svc (migrated (items s) sf))))
   \<and> \<not> isRecoveryFailed (fst (cs_removeItem SalesforceCartClient t sid iid (svc, sf)))
   \<and> \<not> isRecoveryFailed (fst (cs_updateItem SalesforceCartClient t sid iid q (svc, sf)))"
  using removeAfterRecovery_sf[where error = error and sid = sid and iid = iid and s = s
      and sf = sf and svc = svc]
    updateAfterRecovery_sf[where error = error and sid = sid and iid = iid and q = q and s = s
      and sf = sf and svc = svc]
  by (simp add: recoverContext_sf sf_getCart_live[OF migrated_live] buildCart_def
      productId_reissue cs_removeItem_never_recovery_failed cs_updateItem_never_recovery_failed)

theorem C10_branch_unreachable_witness:
  "instanceofContextExpiredError (ContextExpiredError ''ctx_0'')
   \<and> removeAfterRecovery SalesforceCartClient ''sess_0'' ''item_1'' (ContextExpiredError ''ctx_0'')
        (phoneSession\<lparr>sfContextId := ctxId (freshContext (snd expiredWorld))\<rparr>) (fst expiredWorld)
        (migrated (items phoneSession) (snd expiredWorld)) =
       (Inr \<lparr>cartId = ''cart_ctx_1'', cartItems = [], total = Lit 0\<rparr>,
        snd (cs_removeItem SalesforceCartClient 0 ''sess_0'' ''item_1'' expiredWorld))
   \<and> \<not> isRecoveryFailed (fst (removeAfterRecovery SalesforceCartClient ''sess_0'' ''item_1''
        (ContextExpiredError ''ctx_0'')
        (phoneSession\<lparr>sfContextId := ctxId (freshContext (snd expiredWorld))\<rparr>) (fst expiredWorld)
        (migrated (items phoneSession) (snd expiredWorld))))"
proof -
  have a: "instanceofContextExpiredError (ContextExpiredError ''ctx_0'')" by simp
  have b: "removeAfterRecovery SalesforceCartClient ''sess_0'' ''item_1'' (ContextExpiredError ''ctx_0'')
        (phoneSession\<lparr>sfContextId := ctxId (freshContext (snd expiredWorld))\<rparr>) (fst expiredWorld)
        (migrated (items phoneSession) (snd expiredWorld)) =
       (Inr \<lparr>cartId = ''cart_ctx_1'', cartItems = [], total = Lit 0\<rparr>,
        snd (cs_removeItem SalesforceCartClient 0 ''sess_0'' ''item_1'' expiredWorld))"
    by (simp add: expiredWorld_eq world_eval phoneSession_def migrated_def freshContext_def)
  from C10_branch_unreachable [where error = "ContextExpiredError ''ctx_0''" and s = phoneSession
      and sid = "''sess_0''" and iid = "''item_1''" and svc = "fst expiredWorld"
      and sf = "snd expiredWorld"] a
  have "\<not> isRecoveryFailed (fst (removeAfterRecovery SalesforceCartClient ''sess_0'' ''item_1''
        (ContextExpiredError ''ctx_0'')
        (phoneSession\<lparr>sfContextId := ctxId (freshContext (snd expiredWorld))\<rparr>) (fst expiredWorld)
        (migrated (items phoneSession) (snd expiredWorld))))"
    by blast
  with a b show ?thesis by blast
qed

end
